theory Spec2Isabelle
  imports Main "HOL-Library.AList"
begin

section \<open>Text: whitespace, lines, file names\<close>

text \<open>
  A Python \<open>str\<close> is modelled as a \<open>string\<close>, one \<open>char\<close> per character (the characters
  below 256). \<open>isspace\<close> lists the characters below 256 that Python's \<open>str.isspace\<close>
  accepts; \<open>strip\<close> is \<open>str.strip()\<close> with no argument.
\<close>

definition isspace :: "char \<Rightarrow> bool" where
  "isspace c = (c \<in> set [CHR 0x09, CHR 0x0A, CHR 0x0B, CHR 0x0C, CHR 0x0D,
                          CHR 0x1C, CHR 0x1D, CHR 0x1E, CHR 0x1F, CHR 0x20,
                          CHR 0x85, CHR 0xA0])"

definition strip :: "string \<Rightarrow> string" where
  "strip s = rev (dropWhile isspace (rev (dropWhile isspace s)))"

text \<open>
  \<open>open(gt_file, 'r', encoding='utf-8')\<close> reads with universal newlines: \<open>\r\n\<close> and a
  lone \<open>\r\<close> arrive as \<open>\n\<close>. Iterating over the file yields its lines, each with its
  terminating \<open>\n\<close> (the last one possibly without).
\<close>

fun universal_newlines :: "string \<Rightarrow> string" where
  "universal_newlines [] = []"
| "universal_newlines [c] = [if c = CHR 0x0D then CHR 0x0A else c]"
| "universal_newlines (c # d # cs) =
     (if c = CHR 0x0D \<and> d = CHR 0x0A then CHR 0x0A # universal_newlines cs
      else if c = CHR 0x0D then CHR 0x0A # universal_newlines (d # cs)
      else c # universal_newlines (d # cs))"

fun text_lines :: "string \<Rightarrow> string list" where
  "text_lines [] = []"
| "text_lines (c # cs) =
     (if c = CHR 0x0A then [c] # text_lines cs
      else (case text_lines cs of [] \<Rightarrow> [[c]] | l # ls \<Rightarrow> (c # l) # ls))"

text \<open>Line 50: \<open>lines = [line.strip() for line in f if line.strip()]\<close>.\<close>

definition stripped_lines :: "string \<Rightarrow> string list" where
  "stripped_lines text =
     map strip (filter (\<lambda>line. strip line \<noteq> []) (text_lines (universal_newlines text)))"

text \<open>Line 28.\<close>

definition MAX_LINES :: nat where
  "MAX_LINES = 1"

text \<open>
  \<open>GROUND_TRUTH_DIR.glob("*.gt.txt")\<close> yields the entries whose name ends with
  \<open>.gt.txt\<close>; \<open>gt_file.stem\<close> is pathlib's: the name up to its last dot, when that dot is
  neither the first nor the last character. \<open>str_replace old new s\<close> is
  \<open>s.replace(old, new)\<close> for a non-empty \<open>old\<close>: every occurrence, found left to right
  without overlap.
\<close>

definition endswith :: "string \<Rightarrow> string \<Rightarrow> bool" where
  "endswith s suf = (length suf \<le> length s \<and> drop (length s - length suf) s = suf)"

fun rfind :: "char \<Rightarrow> string \<Rightarrow> nat option" where
  "rfind c [] = None"
| "rfind c (x # xs) =
     (case rfind c xs of
        Some i \<Rightarrow> Some (Suc i)
      | None \<Rightarrow> if x = c then Some 0 else None)"

definition stem :: "string \<Rightarrow> string" where
  "stem name =
     (case rfind CHR ''.'' name of
        Some i \<Rightarrow> if 0 < i \<and> Suc i < length name then take i name else name
      | None \<Rightarrow> name)"

fun str_replace :: "string \<Rightarrow> string \<Rightarrow> string \<Rightarrow> string" where
  "str_replace old new [] = []"
| "str_replace old new (c # cs) =
     (if old \<noteq> [] \<and> take (length old) (c # cs) = old
      then new @ str_replace old new (drop (length old - 1) cs)
      else c # str_replace old new cs)"

text \<open>Line 55: \<open>base_name = gt_file.stem.replace('.gt', '')\<close>.\<close>

definition base_name_of :: "string \<Rightarrow> string" where
  "base_name_of gt_name = str_replace ''.gt'' [] (stem gt_name)"

text \<open>Decimal digits of a number, and the format \<open>{line_num:03d}\<close>.\<close>

definition digit_char :: "nat \<Rightarrow> char" where
  "digit_char d = ''0123456789'' ! d"

fun str_nat :: "nat \<Rightarrow> string" where
  "str_nat n = (if n < 10 then [digit_char n] else str_nat (n div 10) @ [digit_char (n mod 10)])"

declare str_nat.simps [simp del]

definition zfill :: "nat \<Rightarrow> string \<Rightarrow> string" where
  "zfill w s = replicate (w - length s) CHR ''0'' @ s"

definition format_03d :: "int \<Rightarrow> string" where
  "format_03d n =
     (if n < 0 then CHR ''-'' # zfill 2 (str_nat (nat (- n))) else zfill 3 (str_nat (nat n)))"

text \<open>Lines 115 to 117.\<close>

definition new_base :: "string \<Rightarrow> int \<Rightarrow> string" where
  "new_base base_name line_num = base_name @ ''_line'' @ format_03d line_num"

definition new_img :: "string \<Rightarrow> int \<Rightarrow> string" where
  "new_img base_name line_num = new_base base_name line_num @ ''.png''"

definition new_gt :: "string \<Rightarrow> int \<Rightarrow> string" where
  "new_gt base_name line_num = new_base base_name line_num @ ''.gt.txt''"

text \<open>Line 80: the extensions, in the order the loop tries them.\<close>

definition extensions :: "string list" where
  "extensions = [''.png'', ''.jpg'', ''.jpeg'', ''.tif'', ''.tiff'', ''.PNG'', ''.JPG'', ''.JPEG'']"

section \<open>Images and crop rectangles\<close>

text \<open>
  An image is its width and its pixel rows, top to bottom; \<open>img.size\<close> is the width and
  the number of rows. A box is \<open>(left, upper, right, lower)\<close>. \<open>crop\<close> is the imaging
  library's \<open>img.crop(box)\<close> for a box inside the image, which is all the splitter
  passes: the rows from \<open>upper\<close> up to \<open>lower\<close>, each cut to the columns from \<open>left\<close>
  up to \<open>right\<close>.
\<close>

datatype image = Image (width: nat) (rows: "nat list list")

type_synonym box = "int \<times> int \<times> int \<times> int"

definition image_size :: "image \<Rightarrow> int \<times> int" where
  "image_size img = (int (width img), int (length (rows img)))"

definition crop :: "image \<Rightarrow> box \<Rightarrow> image" where
  "crop img b =
     (case b of (left, upper, right, lower) \<Rightarrow>
        Image (nat (right - left))
          (map (\<lambda>r. take (nat (right - left)) (drop (nat left) r))
             (take (nat (lower - upper)) (drop (nat upper) (rows img)))))"

text \<open>Lines 111 and 112, and the box of line 120.\<close>

definition y_start :: "int \<Rightarrow> int \<Rightarrow> int" where
  "y_start line_num line_height = (line_num - 1) * line_height"

definition y_end :: "int \<Rightarrow> int \<Rightarrow> int \<Rightarrow> int \<Rightarrow> int" where
  "y_end line_num line_height line_count img_height =
     (if line_num < line_count then line_num * line_height else img_height)"

definition crop_box :: "int \<Rightarrow> int \<Rightarrow> int \<Rightarrow> int \<Rightarrow> int \<Rightarrow> box" where
  "crop_box img_width img_height line_height line_count line_num =
     (0, y_start line_num line_height, img_width,
      y_end line_num line_height line_count img_height)"

text \<open>\<open>enumerate(lines, 1)\<close> of line 106, from any first index.\<close>

fun enumerate_from :: "int \<Rightarrow> 'a list \<Rightarrow> (int \<times> 'a) list" where
  "enumerate_from k [] = []"
| "enumerate_from k (x # xs) = (k, x) # enumerate_from (k + 1) xs"

text \<open>The vertical range of a box: the pixel rows from its upper edge up to its lower edge.\<close>

definition v_start :: "box \<Rightarrow> int" where
  "v_start b = fst (snd b)"

definition v_end :: "box \<Rightarrow> int" where
  "v_end b = snd (snd (snd b))"

definition v_range :: "box \<Rightarrow> int set" where
  "v_range b = {v_start b ..< v_end b}"

section \<open>The directory, the messages and the run\<close>

text \<open>
  The ground-truth directory is the list of its files, name and content, in the order
  the operating system enumerates them. A file holds text, an image, or bytes that are
  neither (reading it as UTF-8 text fails, and so does opening it as an image). The
  subdirectory \<open>multiline_originals\<close> is kept apart: \<open>None\<close> while it does not exist.
\<close>

datatype entry = TextFile string | ImageFile image | Unreadable

type_synonym dir = "(string \<times> entry) list"

datatype exn =
    UnicodeDecodeError
  | UnidentifiedImageError
  | FileNotFoundError
  | FileExistsError
  | ZeroDivisionError
  | SystemError
  | SaveError

text \<open>One constructor for each call of \<open>msg\<close>, \<open>ok\<close>, \<open>err\<close> and \<open>info\<close>, with the values it prints.\<close>

datatype event =
    MsgTitle
  | MsgRule
  | ErrDirNotFound
  | MsgAnalyzing
  | InfoFoundMultiline string nat
  | OkAllSingle nat
  | MsgFound nat nat
  | MsgSplitting
  | ErrImageNotFound string
  | InfoProcessing string
  | InfoImage int int int
  | InfoCreated string nat
  | OkSplitInto int
  | ErrFailed string exn
  | MsgSummary
  | OkSuccessfullySplit nat
  | InfoBackupLocation
  | OkTotalSingleLine nat
  | MsgNextSteps
  | InfoNextStep nat
  | OkDone

record state =
  files :: dir
  backup :: "dir option"
  printed :: "event list"
  total_split :: nat

definition emit :: "event \<Rightarrow> state \<Rightarrow> state" where
  "emit e s = s\<lparr>printed := printed s @ [e]\<rparr>"

definition exists :: "dir \<Rightarrow> string \<Rightarrow> bool" where
  "exists d name = (map_of d name \<noteq> None)"

definition write_file :: "string \<Rightarrow> entry \<Rightarrow> state \<Rightarrow> state" where
  "write_file name e s = s\<lparr>files := AList.update name e (files s)\<rparr>"

text \<open>
  Line 121, \<open>cropped.save(new_img)\<close>. The imaging library opens the target for writing and
  then encodes the image. It refuses an image without pixels (no column or no row) with a
  \<open>SystemError\<close>; \<open>can_save\<close> stands for every other reason the save may raise. When the
  save raises, a file that was there under the target's name has lost its content, and a
  target that was not there is not left behind.
\<close>

definition encodable :: "image \<Rightarrow> bool" where
  "encodable img = (width img \<noteq> 0 \<and> rows img \<noteq> [])"

definition clobber :: "string \<Rightarrow> state \<Rightarrow> state" where
  "clobber name s = (if exists (files s) name then write_file name Unreadable s else s)"

definition save_image :: "(image \<Rightarrow> bool) \<Rightarrow> string \<Rightarrow> image \<Rightarrow> state \<Rightarrow> exn option \<times> state" where
  "save_image can_save name img s =
     (if \<not> encodable img then (Some SystemError, clobber name s)
      else if \<not> can_save img then (Some SaveError, clobber name s)
      else (None, write_file name (ImageFile img) s))"

definition read_text :: "entry \<Rightarrow> exn + string" where
  "read_text e = (case e of TextFile text \<Rightarrow> Inr text | _ \<Rightarrow> Inl UnicodeDecodeError)"

definition open_image :: "dir \<Rightarrow> string \<Rightarrow> exn + image" where
  "open_image d name =
     (case map_of d name of
        None \<Rightarrow> Inl FileNotFoundError
      | Some (ImageFile img) \<Rightarrow> Inr img
      | Some _ \<Rightarrow> Inl UnidentifiedImageError)"

text \<open>
  \<open>shutil.move(str(f), str(backup_dir / f.name))\<close>: the file leaves the directory and
  arrives in the backup directory under its own name, replacing a file of that name there.
\<close>

definition move_to_backup :: "string \<Rightarrow> state \<Rightarrow> exn + state" where
  "move_to_backup name s =
     (case (map_of (files s) name, backup s) of
        (Some e, Some b) \<Rightarrow>
          Inr (s\<lparr>files := AList.delete name (files s), backup := Some (AList.update name e b)\<rparr>)
      | _ \<Rightarrow> Inl FileNotFoundError)"

text \<open>
  Lines 72 and 73: \<open>backup_dir.mkdir(exist_ok=True)\<close>. An existing directory is left as it
  is; a file of that name in the ground-truth directory makes \<open>mkdir\<close> raise.
\<close>

definition mkdir_backup :: "state \<Rightarrow> exn + state" where
  "mkdir_backup s =
     (if exists (files s) ''multiline_originals'' then Inl FileExistsError
      else case backup s of
             None \<Rightarrow> Inr (s\<lparr>backup := Some []\<rparr>)
           | Some b \<Rightarrow> Inr s)"

subsection \<open>Scanning (lines 46 to 57)\<close>

definition glob_gt :: "dir \<Rightarrow> dir" where
  "glob_gt d = filter (\<lambda>(name, e). endswith name ''.gt.txt'') d"

type_synonym record_list = "(string \<times> string list) list"

text \<open>
  The loop over the annotation files. Nothing catches an exception of \<open>open\<close> or of the
  read: it ends the loop and the run (\<open>Inl\<close>, with the state at that moment).
\<close>

fun scan ::
  "dir \<Rightarrow> record_list \<times> nat \<times> state \<Rightarrow> (exn \<times> state) + (record_list \<times> nat \<times> state)" where
  "scan [] acc = Inr acc"
| "scan ((gt_name, e) # rest) (multiline_files, total_files, s) =
     (case read_text e of
        Inl x \<Rightarrow> Inl (x, s)
      | Inr text \<Rightarrow>
          (let lines = stripped_lines text;
               line_count = length lines
           in if line_count > MAX_LINES
              then (let base_name = base_name_of gt_name
                    in scan rest (multiline_files @ [(base_name, lines)], total_files + 1,
                                  emit (InfoFoundMultiline base_name line_count) s))
              else scan rest (multiline_files, total_files + 1, s)))"

subsection \<open>Splitting one record (lines 77 to 139)\<close>

text \<open>Lines 79 to 84: the first candidate that exists.\<close>

definition find_image :: "dir \<Rightarrow> string \<Rightarrow> string option" where
  "find_image d base_name =
     List.find (exists d) (map (\<lambda>ext. base_name @ ext) extensions)"

text \<open>
  Lines 106 to 128. The loop stops at the first save that raises, with everything it wrote
  for the lines before still in place.
\<close>

fun split_lines ::
  "(image \<Rightarrow> bool) \<Rightarrow> string \<Rightarrow> image \<Rightarrow> int \<Rightarrow> int \<Rightarrow> (int \<times> string) list \<Rightarrow> state
     \<Rightarrow> exn option \<times> state" where
  "split_lines can_save base_name img line_height line_count [] s = (None, s)"
| "split_lines can_save base_name img line_height line_count ((line_num, line_text) # rest) s =
     (if line_text = [] then split_lines can_save base_name img line_height line_count rest s
      else
        (let (img_width, img_height) = image_size img;
             cropped = crop img (crop_box img_width img_height line_height line_count line_num)
         in case save_image can_save (new_img base_name line_num) cropped s of
              (Some x, s1) \<Rightarrow> (Some x, s1)
            | (None, s1) \<Rightarrow>
                (let s2 = write_file (new_gt base_name line_num) (TextFile (line_text @ [CHR 0x0A])) s1;
                     s3 = emit (InfoCreated (new_base base_name line_num) (length line_text)) s2;
                     s4 = s3\<lparr>total_split := total_split s3 + 1\<rparr>
                 in split_lines can_save base_name img line_height line_count rest s4)))"

text \<open>The body of the \<open>try\<close>, lines 95 to 135: the exception it raises, if any, and the state then.\<close>

definition try_body ::
  "(image \<Rightarrow> bool) \<Rightarrow> string \<Rightarrow> string list \<Rightarrow> string \<Rightarrow> string \<Rightarrow> state
     \<Rightarrow> exn option \<times> state" where
  "try_body can_save base_name lines img_file gt_file s =
     (case open_image (files s) img_file of
        Inl x \<Rightarrow> (Some x, s)
      | Inr img \<Rightarrow>
          (let (img_width, img_height) = image_size img;
               line_count = int (length lines);
               s1 = emit (InfoImage img_width img_height line_count) s
           in if line_count = 0 then (Some ZeroDivisionError, s1)
              else
                (let line_height = img_height div line_count
                 in case split_lines can_save base_name img line_height line_count
                           (enumerate_from 1 lines) s1 of
                      (Some x, s2) \<Rightarrow> (Some x, s2)
                    | (None, s2) \<Rightarrow>
                        (case move_to_backup img_file s2 of
                           Inl x \<Rightarrow> (Some x, s2)
                         | Inr s3 \<Rightarrow>
                             (case move_to_backup gt_file s3 of
                                Inl x \<Rightarrow> (Some x, s3)
                              | Inr s4 \<Rightarrow> (None, emit (OkSplitInto line_count) s4))))))"

text \<open>One turn of the loop of line 77, with the \<open>except Exception\<close> of lines 137 to 139.\<close>

definition process_record :: "(image \<Rightarrow> bool) \<Rightarrow> string \<times> string list \<Rightarrow> state \<Rightarrow> state" where
  "process_record can_save r s =
     (case r of (base_name, lines) \<Rightarrow>
        (case find_image (files s) base_name of
           None \<Rightarrow> emit (ErrImageNotFound base_name) s
         | Some img_file \<Rightarrow>
             (let gt_file = base_name @ ''.gt.txt'';
                  s1 = emit (InfoProcessing base_name) s
              in case try_body can_save base_name lines img_file gt_file s1 of
                   (None, s2) \<Rightarrow> s2
                 | (Some x, s2) \<Rightarrow> emit (ErrFailed base_name x) s2)))"

fun process_all :: "(image \<Rightarrow> bool) \<Rightarrow> record_list \<Rightarrow> state \<Rightarrow> state" where
  "process_all can_save [] s = s"
| "process_all can_save (r # rs) s = process_all can_save rs (process_record can_save r s)"

subsection \<open>The whole run (lines 30 to 160)\<close>

text \<open>Lines 141 to 160.\<close>

definition summary :: "record_list \<Rightarrow> state \<Rightarrow> state" where
  "summary multiline_files s =
     (let s1 = emit MsgRule (emit MsgSummary (emit MsgRule s));
          s2 = emit (OkSuccessfullySplit (length multiline_files)) s1;
          s3 = emit InfoBackupLocation s2;
          single_line_count = length (glob_gt (files s3));
          s4 = emit (OkTotalSingleLine single_line_count) s3;
          s5 = emit (InfoNextStep 3) (emit (InfoNextStep 2) (emit (InfoNextStep 1)
                 (emit MsgNextSteps s4)))
      in emit OkDone s5)"

text \<open>
  How the process ends: it runs to the end of \<open>main\<close>, calls \<open>sys.exit\<close>, or dies of an
  exception nothing caught (the interpreter then exits with status 1).
\<close>

datatype outcome = Completed | SysExit int | Uncaught exn

definition exit_status :: "outcome \<Rightarrow> int" where
  "exit_status out = (case out of Completed \<Rightarrow> 0 | SysExit n \<Rightarrow> n | Uncaught x \<Rightarrow> 1)"

text \<open>What the run starts from: no ground-truth directory, or its files and its backup subdirectory.\<close>

datatype world = NoRoot | Root dir "dir option"

definition main :: "(image \<Rightarrow> bool) \<Rightarrow> world \<Rightarrow> outcome \<times> state" where
  "main can_save w =
     (case w of
        NoRoot \<Rightarrow>
          (SysExit 1,
           \<lparr>files = [], backup = None, printed = [MsgTitle, MsgRule, ErrDirNotFound],
            total_split = 0\<rparr>)
      | Root d b \<Rightarrow>
          (let s0 = \<lparr>files = d, backup = b, printed = [MsgTitle, MsgRule, MsgAnalyzing],
                     total_split = 0\<rparr>
           in case scan (glob_gt d) ([], 0, s0) of
                Inl (x, s1) \<Rightarrow> (Uncaught x, s1)
              | Inr (multiline_files, total_files, s1) \<Rightarrow>
                  if multiline_files = [] then (Completed, emit (OkAllSingle total_files) s1)
                  else
                    (let s2 = emit (MsgFound (length multiline_files) total_files) s1;
                         s3 = emit MsgSplitting s2
                     in case mkdir_backup s3 of
                          Inl x \<Rightarrow> (Uncaught x, s3)
                        | Inr s4 \<Rightarrow>
                            (Completed,
                             summary multiline_files (process_all can_save multiline_files s4)))))"

section \<open>Auxiliary definitions for the proofs\<close>

text \<open>Reading a decimal string back, to tell the names of different lines apart.\<close>

definition digit_val :: "char \<Rightarrow> nat" where
  "digit_val c = of_char c - 48"

definition val_of :: "string \<Rightarrow> nat" where
  "val_of s = foldl (\<lambda>a c. 10 * a + digit_val c) 0 s"

text \<open>
  The parts of one turn of the loop of line 106: the crop of line 120, and the state once
  lines 121 to 128 have run for a line.
\<close>

definition line_crop :: "image \<Rightarrow> int \<Rightarrow> int \<Rightarrow> int \<Rightarrow> image" where
  "line_crop img line_height line_count line_num =
     crop img (crop_box (fst (image_size img)) (snd (image_size img))
                 line_height line_count line_num)"

definition emit_line :: "string \<Rightarrow> image \<Rightarrow> int \<Rightarrow> string \<Rightarrow> state \<Rightarrow> state" where
  "emit_line base_name cropped line_num line_text s =
     s\<lparr>files := AList.update (new_gt base_name line_num) (TextFile (line_text @ [CHR 0x0A]))
                  (AList.update (new_img base_name line_num) (ImageFile cropped) (files s)),
       printed := printed s @ [InfoCreated (new_base base_name line_num) (length line_text)],
       total_split := total_split s + 1\<rparr>"

text \<open>
  The names one record can write or move when it is processed in a directory: the image
  found for it, its annotation file, and the outputs of its lines; none when no image is
  found or the image found does not open. The names of a run are those of its records,
  each in the directory the records before it have left.
\<close>

definition record_footprint :: "dir \<Rightarrow> string \<Rightarrow> string list \<Rightarrow> string list" where
  "record_footprint d base_name lines =
     (case find_image d base_name of
        None \<Rightarrow> []
      | Some img_file \<Rightarrow>
          (case open_image d img_file of
             Inl x \<Rightarrow> []
           | Inr img \<Rightarrow>
               img_file # (base_name @ ''.gt.txt'')
               # concat (map (\<lambda>(line_num, line_text).
                                 [new_img base_name line_num, new_gt base_name line_num])
                            (enumerate_from 1 lines))))"

fun footprint :: "(image \<Rightarrow> bool) \<Rightarrow> record_list \<Rightarrow> state \<Rightarrow> string list" where
  "footprint can_save [] s = []"
| "footprint can_save ((base_name, lines) # rest) s =
     record_footprint (files s) base_name lines
     @ footprint can_save rest (process_record can_save (base_name, lines) s)"

text \<open>The text of an entry as the scanner reads it; no lines for an entry it cannot read.\<close>

definition entry_lines :: "entry \<Rightarrow> string list" where
  "entry_lines e = (case e of TextFile text \<Rightarrow> stripped_lines text | _ \<Rightarrow> [])"

definition is_text :: "entry \<Rightarrow> bool" where
  "is_text e = (case e of TextFile text \<Rightarrow> True | _ \<Rightarrow> False)"

section \<open>The geometry of the crop boxes\<close>

lemma v_start_crop_box: "v_start (crop_box w h lh n i) = (i - 1) * lh"
  by (simp add: v_start_def crop_box_def y_start_def)

lemma v_end_crop_box: "v_end (crop_box w h lh n i) = (if i < n then i * lh else h)"
  by (simp add: v_end_def crop_box_def y_end_def)

lemma band_bounds:
  fixes h n :: int
  assumes "0 \<le> h" "0 < n" "1 \<le> i" "i \<le> n"
  shows "0 \<le> (i - 1) * (h div n)"
    and "(i - 1) * (h div n) \<le> (if i < n then i * (h div n) else h)"
    and "(if i < n then i * (h div n) else h) \<le> h"
proof -
  have lh: "0 \<le> h div n" using assms by (simp add: pos_imp_zdiv_nonneg_iff)
  have "n * (h div n) + h mod n = h" by simp
  moreover have "0 \<le> h mod n" using assms by simp
  ultimately have nlh: "n * (h div n) \<le> h" by linarith
  show "0 \<le> (i - 1) * (h div n)" using lh assms by simp
  have a: "(i - 1) * (h div n) \<le> i * (h div n)" using lh by (simp add: mult_right_mono)
  have b: "i * (h div n) \<le> n * (h div n)" using lh assms by (simp add: mult_right_mono)
  show "(i - 1) * (h div n) \<le> (if i < n then i * (h div n) else h)"
    using a b nlh by auto
  show "(if i < n then i * (h div n) else h) \<le> h"
    using b nlh by auto
qed

lemma band_cover:
  fixes h n y :: int
  assumes "0 \<le> y" "y < h" "0 < n"
  shows "\<exists>i. 1 \<le> i \<and> i \<le> n \<and> (i - 1) * (h div n) \<le> y \<and> y < (if i < n then i * (h div n) else h)"
proof (cases "y < (n - 1) * (h div n)")
  case True
  have lh: "0 \<le> h div n" using assms by (simp add: pos_imp_zdiv_nonneg_iff)
  have pos: "0 < h div n"
  proof (rule ccontr)
    assume "\<not> 0 < h div n"
    then have "h div n = 0" using lh by simp
    then show False using True assms by simp
  qed
  define i where "i = y div (h div n) + 1"
  have q0: "0 \<le> y div (h div n)" using assms pos by (simp add: pos_imp_zdiv_nonneg_iff)
  have e: "(h div n) * (y div (h div n)) + y mod (h div n) = y" by simp
  have m0: "0 \<le> y mod (h div n)" and m1: "y mod (h div n) < h div n" using pos by simp_all
  have "(h div n) * (y div (h div n)) \<le> y" using e m0 by linarith
  then have lo: "(i - 1) * (h div n) \<le> y" by (simp add: i_def mult.commute)
  have "y < (h div n) * (y div (h div n)) + h div n" using e m1 by linarith
  then have hi: "y < i * (h div n)" by (simp add: i_def algebra_simps)
  have "i - 1 < n - 1"
  proof (rule ccontr)
    assume "\<not> i - 1 < n - 1"
    then have "(n - 1) * (h div n) \<le> (i - 1) * (h div n)" using lh by (simp add: mult_right_mono)
    then show False using lo True by simp
  qed
  then have "i < n" by simp
  then show ?thesis using lo hi q0 by (intro exI[of _ i]) (simp add: i_def)
next
  case False
  then show ?thesis using assms by (intro exI[of _ n]) simp
qed


lemma crop_box_eq:
  "crop_box w h lh n i = (0, (i - 1) * lh, w, if i < n then i * lh else h)"
  by (simp add: crop_box_def y_start_def y_end_def)

lemma box_contiguous:
  "i < n \<Longrightarrow> v_end (crop_box w h lh n i) = v_start (crop_box w h lh n (i + 1))"
  by (simp add: v_start_crop_box v_end_crop_box)

lemma box_disjoint:
  fixes h n :: int
  assumes "0 \<le> h" "0 < n" "i < j" "j \<le> n"
  shows "v_range (crop_box w h (h div n) n i) \<inter> v_range (crop_box w h (h div n) n j) = {}"
proof -
  have lh: "0 \<le> h div n" using assms by (simp add: pos_imp_zdiv_nonneg_iff)
  have "i * (h div n) \<le> (j - 1) * (h div n)" using lh assms by (intro mult_right_mono) simp_all
  moreover have "v_end (crop_box w h (h div n) n i) = i * (h div n)"
    using assms by (simp add: v_end_crop_box)
  ultimately show ?thesis by (auto simp: v_range_def v_start_crop_box)
qed

lemma box_union:
  fixes h n :: int
  assumes "0 \<le> h" "0 < n"
  shows "(\<Union>i \<in> {1..n}. v_range (crop_box w h (h div n) n i)) = {0..<h}"
proof (intro equalityI subsetI)
  fix y assume "y \<in> (\<Union>i \<in> {1..n}. v_range (crop_box w h (h div n) n i))"
  then obtain i where i: "1 \<le> i" "i \<le> n" and y: "y \<in> v_range (crop_box w h (h div n) n i)"
    by auto
  have "0 \<le> (i - 1) * (h div n)" and "(if i < n then i * (h div n) else h) \<le> h"
    using band_bounds[OF assms i] by blast+
  then show "y \<in> {0..<h}"
    using y by (auto simp: v_range_def v_start_crop_box v_end_crop_box split: if_splits)
next
  fix y assume "y \<in> {0..<h}"
  then obtain i where i: "1 \<le> i" "i \<le> n" "(i - 1) * (h div n) \<le> y"
      "y < (if i < n then i * (h div n) else h)"
    using band_cover[of y h n] assms by auto
  then have "y \<in> v_range (crop_box w h (h div n) n i)"
    by (simp add: v_range_def v_start_crop_box v_end_crop_box)
  then show "y \<in> (\<Union>i \<in> {1..n}. v_range (crop_box w h (h div n) n i))"
    using i by auto
qed

section \<open>Stems and the removal of \<open>.gt\<close>\<close>


lemma rfind_append:
  "rfind c (xs @ ys) =
     (case rfind c ys of Some i \<Rightarrow> Some (length xs + i) | None \<Rightarrow> rfind c xs)"
  by (induction xs) (auto split: option.splits)

lemma stem_gt_txt: "stem (p @ ''.gt.txt'') = p @ ''.gt''"
proof -
  have "rfind CHR ''.'' (p @ ''.gt.txt'') = Some (length p + 3)"
    by (simp add: rfind_append)
  then show ?thesis by (simp add: stem_def)
qed

lemma remove_gt_hit: "str_replace ''.gt'' [] (''.gt'' @ rest) = str_replace ''.gt'' [] rest"
  by simp

declare str_replace.simps(2) [simp del]

lemma remove_gt_miss:
  assumes "\<not> (\<exists>rest. c # cs = ''.gt'' @ rest)"
  shows "str_replace ''.gt'' [] (c # cs) = c # str_replace ''.gt'' [] cs"
proof -
  have ne: "\<not> (''.gt'' \<noteq> [] \<and> take (length ''.gt'') (c # cs) = ''.gt'')"
  proof
    assume "''.gt'' \<noteq> [] \<and> take (length ''.gt'') (c # cs) = ''.gt''"
    then have "c # cs = ''.gt'' @ drop (length ''.gt'') (c # cs)"
      by (metis append_take_drop_id)
    then show False using assms by blast
  qed
  have "str_replace ''.gt'' [] (c # cs) =
        (if ''.gt'' \<noteq> [] \<and> take (length ''.gt'') (c # cs) = ''.gt''
         then [] @ str_replace ''.gt'' [] (drop (length ''.gt'' - 1) cs)
         else c # str_replace ''.gt'' [] cs)"
    by (rule str_replace.simps(2))
  also have "\<dots> = c # str_replace ''.gt'' [] cs"
    using ne by (rule if_not_P)
  finally show ?thesis .
qed

lemma remove_gt_suffix: "str_replace ''.gt'' [] (p @ ''.gt'') = str_replace ''.gt'' [] p"
proof (induction p rule: length_induct)
  case (1 p)
  show ?case
  proof (cases "\<exists>rest. p = ''.gt'' @ rest")
    case True
    then obtain rest where p: "p = ''.gt'' @ rest" by blast
    have "str_replace ''.gt'' [] (rest @ ''.gt'') = str_replace ''.gt'' [] rest"
      using 1 p by simp
    then show ?thesis unfolding p append_assoc remove_gt_hit .
  next
    case False
    show ?thesis
    proof (cases p)
      case Nil
      then show ?thesis using remove_gt_hit[of "[]"] by simp
    next
      case (Cons c cs)
      have ih: "str_replace ''.gt'' [] (cs @ ''.gt'') = str_replace ''.gt'' [] cs"
        using 1 Cons by simp
      have "\<not> (\<exists>rest. c # (cs @ ''.gt'') = ''.gt'' @ rest)"
      proof
        assume "\<exists>rest. c # (cs @ ''.gt'') = ''.gt'' @ rest"
        then obtain rest where r: "c # (cs @ ''.gt'') = ''.gt'' @ rest" by blast
        show False
        proof (cases "2 \<le> length cs")
          case True
          then obtain d e cs' where "cs = d # e # cs'"
            by (cases cs; cases "tl cs") auto
          then have "p = ''.gt'' @ cs'" using r Cons by simp
          then show False using False by blast
        next
          case False
          then show False using r by (cases cs; cases "tl cs") auto
        qed
      qed
      then have "str_replace ''.gt'' [] (c # (cs @ ''.gt'')) = c # str_replace ''.gt'' [] (cs @ ''.gt'')"
        by (rule remove_gt_miss)
      moreover have "str_replace ''.gt'' [] (c # cs) = c # str_replace ''.gt'' [] cs"
        using False Cons by (intro remove_gt_miss) simp
      ultimately show ?thesis using ih Cons by simp
    qed
  qed
qed

lemma length_remove_gt: "length (str_replace ''.gt'' [] p) \<le> length p"
proof (induction p rule: length_induct)
  case (1 p)
  show ?case
  proof (cases "\<exists>rest. p = ''.gt'' @ rest")
    case True
    then obtain rest where p: "p = ''.gt'' @ rest" by blast
    have "length (str_replace ''.gt'' [] rest) \<le> length rest" using 1 p by simp
    then show ?thesis unfolding p remove_gt_hit by simp
  next
    case False
    show ?thesis
    proof (cases p)
      case Nil
      then show ?thesis by simp
    next
      case (Cons c cs)
      have "length (str_replace ''.gt'' [] cs) \<le> length cs" using 1 Cons by simp
      moreover have "str_replace ''.gt'' [] (c # cs) = c # str_replace ''.gt'' [] cs"
        using False Cons by (intro remove_gt_miss) simp
      ultimately show ?thesis using Cons by simp
    qed
  qed
qed

lemma remove_gt_shrinks:
  "p = u @ ''.gt'' @ v \<Longrightarrow> length (str_replace ''.gt'' [] p) < length p"
proof (induction u arbitrary: p)
  case Nil
  have "length (str_replace ''.gt'' [] v) \<le> length v" by (rule length_remove_gt)
  then show ?case unfolding Nil append_Nil remove_gt_hit by simp
next
  case (Cons c u)
  let ?cs = "u @ ''.gt'' @ v"
  have ih: "length (str_replace ''.gt'' [] ?cs) < length ?cs" using Cons.IH by simp
  show ?case
  proof (cases "\<exists>rest. c # ?cs = ''.gt'' @ rest")
    case True
    then obtain rest where r: "c # ?cs = ''.gt'' @ rest" by blast
    have p: "p = ''.gt'' @ rest" using Cons.prems r by simp
    have "length (str_replace ''.gt'' [] rest) \<le> length rest" by (rule length_remove_gt)
    then show ?thesis unfolding p remove_gt_hit by simp
  next
    case False
    then have "str_replace ''.gt'' [] (c # ?cs) = c # str_replace ''.gt'' [] ?cs"
      by (rule remove_gt_miss)
    then show ?thesis using ih Cons.prems by simp
  qed
qed

lemma remove_gt_id:
  "\<not> (\<exists>u v. p = u @ ''.gt'' @ v) \<Longrightarrow> str_replace ''.gt'' [] p = p"
proof (induction p)
  case Nil
  show ?case by simp
next
  case (Cons c cs)
  have "\<not> (\<exists>rest. c # cs = ''.gt'' @ rest)"
  proof
    assume "\<exists>rest. c # cs = ''.gt'' @ rest"
    then obtain rest where "c # cs = [] @ ''.gt'' @ rest" by auto
    then show False using Cons.prems by blast
  qed
  then have m: "str_replace ''.gt'' [] (c # cs) = c # str_replace ''.gt'' [] cs"
    by (rule remove_gt_miss)
  have "\<not> (\<exists>u v. cs = u @ ''.gt'' @ v)"
  proof
    assume "\<exists>u v. cs = u @ ''.gt'' @ v"
    then obtain u v where "cs = u @ ''.gt'' @ v" by blast
    then have "c # cs = (c # u) @ ''.gt'' @ v" by simp
    then show False using Cons.prems by blast
  qed
  then show ?case using m Cons.IH by simp
qed

lemma base_name_of_plain:
  "(base_name_of (p @ ''.gt.txt'') = p) = (\<not> (\<exists>u v. p = u @ ''.gt'' @ v))"
proof
  assume eq: "base_name_of (p @ ''.gt.txt'') = p"
  show "\<not> (\<exists>u v. p = u @ ''.gt'' @ v)"
  proof
    assume "\<exists>u v. p = u @ ''.gt'' @ v"
    then obtain u v where "p = u @ ''.gt'' @ v" by blast
    then have "length (str_replace ''.gt'' [] p) < length p" by (rule remove_gt_shrinks)
    then show False using eq by (simp add: base_name_of_def stem_gt_txt remove_gt_suffix)
  qed
next
  assume "\<not> (\<exists>u v. p = u @ ''.gt'' @ v)"
  then show "base_name_of (p @ ''.gt.txt'') = p"
    by (simp add: base_name_of_def stem_gt_txt remove_gt_suffix remove_gt_id)
qed

section \<open>Output names and the loop over the lines\<close>


lemma digit_val_digit_char: "d < 10 \<Longrightarrow> digit_val (digit_char d) = d"
proof -
  assume "d < 10"
  then have "d \<in> {0, 1, 2, 3, 4, 5, 6, 7, 8, 9}" by auto
  then show ?thesis by (auto simp: digit_val_def digit_char_def)
qed

lemma val_of_snoc: "val_of (s @ [c]) = 10 * val_of s + digit_val c"
  by (simp add: val_of_def)

lemma val_of_str_nat: "val_of (str_nat n) = n"
proof (induction n rule: str_nat.induct)
  case (1 n)
  show ?case
  proof (cases "n < 10")
    case True
    then show ?thesis by (subst str_nat.simps) (simp add: val_of_def digit_val_digit_char)
  next
    case False
    then have "val_of (str_nat (n div 10)) = n div 10" using 1 by simp
    then show ?thesis using False
      by (subst str_nat.simps) (simp add: val_of_snoc digit_val_digit_char)
  qed
qed

lemma val_of_zeros: "val_of (replicate k CHR ''0'' @ s) = val_of s"
proof -
  have "foldl (\<lambda>a c. 10 * a + digit_val c) 0 (replicate k CHR ''0'') = 0"
    by (induction k) (simp_all add: digit_val_def)
  then show ?thesis by (simp add: val_of_def)
qed

lemma val_of_format_03d: "0 \<le> n \<Longrightarrow> val_of (format_03d n) = nat n"
  by (simp add: format_03d_def zfill_def val_of_zeros val_of_str_nat)

lemma format_03d_inj: "0 \<le> i \<Longrightarrow> 0 \<le> j \<Longrightarrow> format_03d i = format_03d j \<Longrightarrow> i = j"
  by (metis val_of_format_03d nat_eq_iff2 int_nat_eq)

lemma new_img_inj: "0 \<le> i \<Longrightarrow> 0 \<le> j \<Longrightarrow> new_img b i = new_img b j \<Longrightarrow> i = j"
  by (simp add: new_img_def new_base_def format_03d_inj)

lemma new_gt_inj: "0 \<le> i \<Longrightarrow> 0 \<le> j \<Longrightarrow> new_gt b i = new_gt b j \<Longrightarrow> i = j"
  by (simp add: new_gt_def new_base_def format_03d_inj)

lemma new_img_neq_new_gt: "new_img b i \<noteq> new_gt b j"
proof
  assume "new_img b i = new_gt b j"
  then have "format_03d i @ ''.png'' = format_03d j @ ''.gt.txt''"
    by (simp add: new_img_def new_gt_def new_base_def)
  then have "last (format_03d i @ ''.png'') = last (format_03d j @ ''.gt.txt'')" by simp
  then show False by simp
qed

lemma original_neq_new:
  "b @ ''.gt.txt'' \<noteq> new_img b i" "b @ ''.gt.txt'' \<noteq> new_gt b i"
  "ext \<in> set extensions \<Longrightarrow> b @ ext \<noteq> new_img b i"
  "ext \<in> set extensions \<Longrightarrow> b @ ext \<noteq> new_gt b i"
  "ext \<in> set extensions \<Longrightarrow> b @ ext \<noteq> b @ ''.gt.txt''"
  by (auto simp: new_img_def new_gt_def new_base_def extensions_def)

lemma save_image_cases:
  "save_image can_save name img s =
     (if encodable img \<and> can_save img then (None, write_file name (ImageFile img) s)
      else (Some (if encodable img then SaveError else SystemError), clobber name s))"
  by (simp add: save_image_def)

lemma split_lines_step:
  "split_lines can_save b img lh n ((i, t) # es) s =
     (if t = [] then split_lines can_save b img lh n es s
      else if encodable (line_crop img lh n i) \<and> can_save (line_crop img lh n i)
      then split_lines can_save b img lh n es (emit_line b (line_crop img lh n i) i t s)
      else (Some (if encodable (line_crop img lh n i) then SaveError else SystemError),
            clobber (new_img b i) s))"
  by (simp add: save_image_cases line_crop_def emit_line_def write_file_def emit_def Let_def
           split: prod.splits)

declare split_lines.simps(2) [simp del]

lemma emit_line_fields [simp]:
  "backup (emit_line b c i t s) = backup s"
  "total_split (emit_line b c i t s) = Suc (total_split s)"
  "printed (emit_line b c i t s) = printed s @ [InfoCreated (new_base b i) (length t)]"
  "map_of (files (emit_line b c i t s)) =
     (map_of (files s))(new_img b i \<mapsto> ImageFile c, new_gt b i \<mapsto> TextFile (t @ [CHR 0x0A]))"
  by (simp_all add: emit_line_def update_conv')


lemma clobber_fields [simp]:
  "backup (clobber name s) = backup s"
  "total_split (clobber name s) = total_split s"
  "printed (clobber name s) = printed s"
  "other \<noteq> name \<Longrightarrow> map_of (files (clobber name s)) other = map_of (files s) other"
  by (simp_all add: clobber_def write_file_def update_conv')

lemma clobber_absent:
  "map_of (files s) name = None \<Longrightarrow> clobber name s = s"
  by (simp add: clobber_def exists_def)

lemma clobber_not_image:
  "map_of (files (clobber name s)) name \<noteq> Some (ImageFile img)"
  by (auto simp: clobber_def exists_def write_file_def update_conv')

lemma split_lines_frame:
  "split_lines can_save b img lh n es s = (r, s') \<Longrightarrow>
   backup s' = backup s \<and> total_split s \<le> total_split s' \<and>
   (\<forall>name. (\<forall>(i, t) \<in> set es. name \<noteq> new_img b i \<and> name \<noteq> new_gt b i) \<longrightarrow>
      map_of (files s') name = map_of (files s) name)"
proof (induction es arbitrary: s)
  case Nil
  then show ?case by simp
next
  case (Cons e es)
  obtain i t where e: "e = (i, t)" by (cases e)
  show ?case
  proof (cases "t = []")
    case True
    then show ?thesis using Cons e by (auto simp: split_lines_step)
  next
    case False
    note t = False
    show ?thesis
    proof (cases "encodable (line_crop img lh n i) \<and> can_save (line_crop img lh n i)")
      case False
      then have "s' = clobber (new_img b i) s"
        using Cons.prems e t by (auto simp: split_lines_step split: if_splits)
      then show ?thesis using e by simp
    next
      case True
      let ?s1 = "emit_line b (line_crop img lh n i) i t s"
      have run: "split_lines can_save b img lh n es ?s1 = (r, s')"
        using Cons.prems e t True by (simp add: split_lines_step)
      from Cons.IH[OF run] show ?thesis using e by auto
    qed
  qed
qed

lemma split_lines_emitted:
  assumes "split_lines can_save b img lh n es s = (r, s')"
    and "distinct (map fst es)"
    and "\<forall>(i, t) \<in> set es. 0 \<le> i \<and> t \<noteq> []"
  shows "total_split s' - total_split s \<le> length es
       \<and> (r = None \<longrightarrow> total_split s' - total_split s = length es)
       \<and> (r \<noteq> None \<longrightarrow> total_split s' - total_split s < length es)
       \<and> (\<forall>j < total_split s' - total_split s.
            map_of (files s') (new_img b (fst (es ! j))) =
              Some (ImageFile (line_crop img lh n (fst (es ! j))))
            \<and> map_of (files s') (new_gt b (fst (es ! j))) =
              Some (TextFile (snd (es ! j) @ [CHR 0x0A])))
       \<and> printed s' = printed s @
            map (\<lambda>(i, t). InfoCreated (new_base b i) (length t))
              (take (total_split s' - total_split s) es)"
  using assms
proof (induction es arbitrary: s)
  case Nil
  then show ?case by simp
next
  case (Cons e es)
  obtain i t where e: "e = (i, t)" by (cases e)
  have t: "t \<noteq> []" and i: "0 \<le> i" using Cons.prems(3) e by auto
  show ?case
  proof (cases "encodable (line_crop img lh n i) \<and> can_save (line_crop img lh n i)")
    case False
    then have "s' = clobber (new_img b i) s" and "r \<noteq> None"
      using Cons.prems(1) e t by (auto simp: split_lines_step split: if_splits)
    then show ?thesis by simp
  next
    case True
    let ?s1 = "emit_line b (line_crop img lh n i) i t s"
    have run: "split_lines can_save b img lh n es ?s1 = (r, s')"
      using Cons.prems(1) e t True by (simp add: split_lines_step)
    have d: "distinct (map fst es)" and p: "\<forall>(i, t) \<in> set es. 0 \<le> i \<and> t \<noteq> []"
      using Cons.prems by auto
    note ih = Cons.IH[OF run d p]
    note fr = split_lines_frame[OF run]
    have "Suc (total_split s) \<le> total_split s'" using fr by simp
    then have m: "total_split s' - total_split s = Suc (total_split s' - total_split ?s1)"
      by simp
    have other: "\<forall>(j, u) \<in> set es. new_img b i \<noteq> new_img b j \<and> new_img b i \<noteq> new_gt b j
         \<and> new_gt b i \<noteq> new_img b j \<and> new_gt b i \<noteq> new_gt b j"
    proof (clarify, intro conjI)
      fix j u assume ju: "(j, u) \<in> set es"
      then have "j \<noteq> i" using Cons.prems(2) e by force
      moreover have "0 \<le> j" using p ju by auto
      ultimately show "new_img b i \<noteq> new_img b j" "new_gt b i \<noteq> new_gt b j"
        using i new_img_inj new_gt_inj by blast+
      show "new_img b i \<noteq> new_gt b j" by (rule new_img_neq_new_gt)
      show "new_gt b i \<noteq> new_img b j" using new_img_neq_new_gt[of b j i] by simp
    qed
    have keep_img: "map_of (files s') (new_img b i) = map_of (files ?s1) (new_img b i)"
      using fr other by auto
    have keep_gt: "map_of (files s') (new_gt b i) = map_of (files ?s1) (new_gt b i)"
      using fr other by auto
    have head: "map_of (files s') (new_img b i) = Some (ImageFile (line_crop img lh n i))
        \<and> map_of (files s') (new_gt b i) = Some (TextFile (t @ [CHR 0x0A]))"
      using keep_img keep_gt new_img_neq_new_gt[of b i i] by simp
    have files: "\<forall>j < total_split s' - total_split s.
            map_of (files s') (new_img b (fst ((e # es) ! j))) =
              Some (ImageFile (line_crop img lh n (fst ((e # es) ! j))))
            \<and> map_of (files s') (new_gt b (fst ((e # es) ! j))) =
              Some (TextFile (snd ((e # es) ! j) @ [CHR 0x0A]))"
    proof (intro allI impI)
      fix j assume j: "j < total_split s' - total_split s"
      show "map_of (files s') (new_img b (fst ((e # es) ! j))) =
              Some (ImageFile (line_crop img lh n (fst ((e # es) ! j))))
            \<and> map_of (files s') (new_gt b (fst ((e # es) ! j))) =
              Some (TextFile (snd ((e # es) ! j) @ [CHR 0x0A]))"
      proof (cases j)
        case 0
        then show ?thesis using head e by simp
      next
        case (Suc j')
        then have "j' < total_split s' - total_split ?s1" using j m by simp
        then show ?thesis using ih Suc by simp
      qed
    qed
    show ?thesis using ih m files e by simp
  qed
qed

section \<open>The body of the \<open>try\<close>\<close>


lemma length_enumerate_from [simp]: "length (enumerate_from k ls) = length ls"
  by (induction ls arbitrary: k) simp_all

lemma nth_enumerate_from:
  "j < length ls \<Longrightarrow> enumerate_from k ls ! j = (k + int j, ls ! j)"
proof (induction ls arbitrary: k j)
  case Nil
  then show ?case by simp
next
  case (Cons x ls)
  show ?case
  proof (cases j)
    case 0
    then show ?thesis by simp
  next
    case (Suc j')
    then show ?thesis using Cons.prems Cons.IH[of j' "k + 1"] by simp
  qed
qed

lemma fst_enumerate_from:
  "(i, t) \<in> set (enumerate_from k ls) \<Longrightarrow> k \<le> i \<and> t \<in> set ls"
  by (induction ls arbitrary: k) force+

lemma distinct_enumerate_from: "distinct (map fst (enumerate_from k ls))"
proof (induction ls arbitrary: k)
  case Nil
  show ?case by simp
next
  case (Cons x ls)
  have "k \<notin> fst ` set (enumerate_from (k + 1) ls)"
    using fst_enumerate_from[of k _ "k + 1" ls] by force
  then show ?case using Cons by simp
qed

lemma move_to_backup_Inr:
  "move_to_backup name s = Inr s' \<Longrightarrow>
   \<exists>e bk. map_of (files s) name = Some e \<and> backup s = Some bk
     \<and> s' = s\<lparr>files := AList.delete name (files s), backup := Some (AList.update name e bk)\<rparr>"
  by (auto simp: move_to_backup_def split: option.splits)

lemma try_body_None:
  assumes "try_body can_save b lines img_file gt_file s = (None, s')"
  shows "\<exists>img s2 s3 s4.
           open_image (files s) img_file = Inr img \<and> lines \<noteq> []
         \<and> split_lines can_save b img (snd (image_size img) div int (length lines))
              (int (length lines)) (enumerate_from 1 lines)
              (emit (InfoImage (fst (image_size img)) (snd (image_size img)) (int (length lines))) s)
            = (None, s2)
         \<and> move_to_backup img_file s2 = Inr s3
         \<and> move_to_backup gt_file s3 = Inr s4
         \<and> s' = emit (OkSplitInto (int (length lines))) s4"
  using assms
  by (auto simp: try_body_def Let_def split: sum.splits prod.splits if_splits option.splits)

lemma open_image_Inr: "open_image d name = Inr img \<Longrightarrow> map_of d name = Some (ImageFile img)"
  by (auto simp: open_image_def split: option.splits entry.splits)

lemma emit_fields [simp]:
  "files (emit e s) = files s" "backup (emit e s) = backup s"
  "total_split (emit e s) = total_split s" "printed (emit e s) = printed s @ [e]"
  by (simp_all add: emit_def)

lemma record_split:
  assumes tb: "try_body can_save b lines (b @ ext) (b @ ''.gt.txt'') s = (None, s')"
    and ext: "ext \<in> set extensions"
    and ne: "\<forall>l \<in> set lines. l \<noteq> []"
  shows "\<exists>img e bk bk'.
      map_of (files s) (b @ ext) = Some (ImageFile img)
    \<and> map_of (files s) (b @ ''.gt.txt'') = Some e
    \<and> backup s = Some bk \<and> backup s' = Some bk'
    \<and> lines \<noteq> []
    \<and> (\<forall>j < length lines.
          map_of (files s') (new_img b (1 + int j)) =
            Some (ImageFile (line_crop img (snd (image_size img) div int (length lines))
                               (int (length lines)) (1 + int j)))
        \<and> map_of (files s') (new_gt b (1 + int j)) = Some (TextFile (lines ! j @ [CHR 0x0A])))
    \<and> map_of (files s') (b @ ext) = None
    \<and> map_of (files s') (b @ ''.gt.txt'') = None
    \<and> map_of bk' (b @ ext) = Some (ImageFile img)
    \<and> map_of bk' (b @ ''.gt.txt'') = Some e
    \<and> (\<forall>name. name \<noteq> b @ ext \<and> name \<noteq> b @ ''.gt.txt'' \<longrightarrow> map_of bk' name = map_of bk name)
    \<and> total_split s' = total_split s + length lines
    \<and> printed s' = printed s
         @ [InfoImage (fst (image_size img)) (snd (image_size img)) (int (length lines))]
         @ map (\<lambda>(i, t). InfoCreated (new_base b i) (length t)) (enumerate_from 1 lines)
         @ [OkSplitInto (int (length lines))]"
proof -
  from try_body_None[OF tb] obtain img s2 s3 s4 where
    op: "open_image (files s) (b @ ext) = Inr img" and nonempty: "lines \<noteq> []"
    and sl: "split_lines can_save b img (snd (image_size img) div int (length lines))
              (int (length lines)) (enumerate_from 1 lines)
              (emit (InfoImage (fst (image_size img)) (snd (image_size img)) (int (length lines))) s)
            = (None, s2)"
    and mv1: "move_to_backup (b @ ext) s2 = Inr s3"
    and mv2: "move_to_backup (b @ ''.gt.txt'') s3 = Inr s4"
    and s': "s' = emit (OkSplitInto (int (length lines))) s4"
    by blast
  let ?lh = "snd (image_size img) div int (length lines)" and ?n = "int (length lines)"
  let ?es = "enumerate_from 1 lines"
  have img: "map_of (files s) (b @ ext) = Some (ImageFile img)" using op by (rule open_image_Inr)
  have pos: "\<forall>(i, t) \<in> set ?es. 0 \<le> i \<and> t \<noteq> []"
    using fst_enumerate_from[of _ _ 1 lines] ne by fastforce
  note em = split_lines_emitted[OF sl distinct_enumerate_from pos]
  note fr = split_lines_frame[OF sl]
  have "total_split s2 - total_split s = length lines" using em by simp
  moreover have "total_split s \<le> total_split s2" using fr by simp
  ultimately have cnt: "total_split s2 = total_split s + length lines" by linarith
  have out2: "\<forall>j < length lines.
          map_of (files s2) (new_img b (1 + int j)) = Some (ImageFile (line_crop img ?lh ?n (1 + int j)))
        \<and> map_of (files s2) (new_gt b (1 + int j)) = Some (TextFile (lines ! j @ [CHR 0x0A]))"
    using em cnt by (simp add: nth_enumerate_from)
  have pr2: "printed s2 = printed s
         @ [InfoImage (fst (image_size img)) (snd (image_size img)) ?n]
         @ map (\<lambda>(i, t). InfoCreated (new_base b i) (length t)) ?es"
    using em cnt by simp
  have names: "\<And>i. b @ ext \<noteq> new_img b i" "\<And>i. b @ ext \<noteq> new_gt b i"
      "\<And>i. b @ ''.gt.txt'' \<noteq> new_img b i" "\<And>i. b @ ''.gt.txt'' \<noteq> new_gt b i"
    using original_neq_new(3,4)[OF ext] original_neq_new(1,2) by blast+
  have keep: "map_of (files s2) (b @ ext) = map_of (files s) (b @ ext)"
      "map_of (files s2) (b @ ''.gt.txt'') = map_of (files s) (b @ ''.gt.txt'')"
    using fr names by auto
  from move_to_backup_Inr[OF mv1] obtain e1 bk where
    e1: "map_of (files s2) (b @ ext) = Some e1" and bk: "backup s2 = Some bk"
    and s3: "s3 = s2\<lparr>files := AList.delete (b @ ext) (files s2),
                     backup := Some (AList.update (b @ ext) e1 bk)\<rparr>"
    by blast
  from move_to_backup_Inr[OF mv2] obtain e2 bk2 where
    e2: "map_of (files s3) (b @ ''.gt.txt'') = Some e2" and bk2: "backup s3 = Some bk2"
    and s4: "s4 = s3\<lparr>files := AList.delete (b @ ''.gt.txt'') (files s3),
                     backup := Some (AList.update (b @ ''.gt.txt'') e2 bk2)\<rparr>"
    by blast
  have diff: "b @ ext \<noteq> b @ ''.gt.txt''" using original_neq_new(5)[OF ext] .
  have e1': "e1 = ImageFile img" using e1 keep img by simp
  have e2': "map_of (files s) (b @ ''.gt.txt'') = Some e2"
    using e2 s3 keep diff by (simp add: delete_conv')
  have bks: "backup s = Some bk" using bk fr by simp
  have files': "map_of (files s') = (map_of (files s2))(b @ ext := None, b @ ''.gt.txt'' := None)"
    using s' s4 s3 by (simp add: delete_conv')
  have bk': "backup s' = Some (AList.update (b @ ''.gt.txt'') e2 (AList.update (b @ ext) e1 bk))"
    using s' s4 s3 bk2 by simp
  have out: "\<forall>j < length lines.
          map_of (files s') (new_img b (1 + int j)) = Some (ImageFile (line_crop img ?lh ?n (1 + int j)))
        \<and> map_of (files s') (new_gt b (1 + int j)) = Some (TextFile (lines ! j @ [CHR 0x0A]))"
    using out2 files' names[symmetric] by simp
  have cnt': "total_split s' = total_split s + length lines" using cnt s' s4 s3 by simp
  have pr': "printed s' = printed s
         @ [InfoImage (fst (image_size img)) (snd (image_size img)) ?n]
         @ map (\<lambda>(i, t). InfoCreated (new_base b i) (length t)) ?es
         @ [OkSplitInto ?n]"
    using pr2 s' s4 s3 by simp
  show ?thesis
    apply (rule exI[of _ img], rule exI[of _ e2], rule exI[of _ bk])
    apply (rule exI[of _ "AList.update (b @ ''.gt.txt'') e2 (AList.update (b @ ext) e1 bk)"])
    using img e2' bks bk' nonempty out files' diff e1' cnt' pr'
    by (simp add: update_conv')
qed


section \<open>Facts about the scan\<close>


lemma find_image_Some:
  "find_image d b = Some f \<Longrightarrow> \<exists>ext \<in> set extensions. f = b @ ext \<and> exists d f"
  by (auto simp: find_image_def find_Some_iff)

lemma split_lines_total:
  "\<forall>(i, t) \<in> set es. t \<noteq> [] \<longrightarrow>
      encodable (line_crop img lh n i) \<and> can_save (line_crop img lh n i) \<Longrightarrow>
   \<exists>s'. split_lines can_save b img lh n es s = (None, s')"
proof (induction es arbitrary: s)
  case Nil
  show ?case by simp
next
  case (Cons e es)
  obtain i t where e: "e = (i, t)" by (cases e)
  show ?case using Cons e by (simp add: split_lines_step)
qed

lemma stripped_lines_nonempty: "l \<in> set (stripped_lines body) \<Longrightarrow> l \<noteq> []"
  by (auto simp: stripped_lines_def)

lemma scan_result:
  "scan d (recs0, total_files0, s0) = Inr (recs, total_files, s1) \<Longrightarrow>
   recs = recs0 @ map (\<lambda>(name, e). (base_name_of name, entry_lines e))
                    (filter (\<lambda>(name, e). 1 < length (entry_lines e)) d)
   \<and> total_files = total_files0 + length d
   \<and> (\<forall>(name, e) \<in> set d. is_text e)
   \<and> files s1 = files s0 \<and> backup s1 = backup s0 \<and> total_split s1 = total_split s0
   \<and> printed s1 = printed s0 @ map (\<lambda>(name, e). InfoFoundMultiline (base_name_of name) (length (entry_lines e)))
                    (filter (\<lambda>(name, e). 1 < length (entry_lines e)) d)"
proof (induction d arbitrary: recs0 total_files0 s0)
  case Nil
  then show ?case by simp
next
  case (Cons x d)
  obtain name e where x: "x = (name, e)" by (cases x)
  from Cons.prems x obtain body where e: "e = TextFile body"
    by (cases e) (auto simp: read_text_def)
  show ?case
  proof (cases "1 < length (stripped_lines body)")
    case True
    then have "scan d (recs0 @ [(base_name_of name, stripped_lines body)], total_files0 + 1,
                 emit (InfoFoundMultiline (base_name_of name) (length (stripped_lines body))) s0)
               = Inr (recs, total_files, s1)"
      using Cons.prems x e by (simp add: read_text_def MAX_LINES_def Let_def)
    from Cons.IH[OF this] show ?thesis using True x e by (simp add: entry_lines_def is_text_def)
  next
    case False
    then have "scan d (recs0, total_files0 + 1, s0) = Inr (recs, total_files, s1)"
      using Cons.prems x e by (simp add: read_text_def MAX_LINES_def Let_def)
    from Cons.IH[OF this] show ?thesis using False x e by (simp add: entry_lines_def is_text_def)
  qed
qed

lemma scan_total:
  "\<forall>(name, e) \<in> set d. is_text e \<Longrightarrow> \<exists>r. scan d acc = Inr r"
proof (induction d arbitrary: acc)
  case Nil
  show ?case by (rule exI[of _ acc]) simp
next
  case (Cons x d)
  obtain name e where x: "x = (name, e)" by (cases x)
  obtain recs0 total_files0 s0 where acc: "acc = (recs0, total_files0, s0)" by (metis prod_cases3)
  from Cons.prems x obtain body where e: "e = TextFile body"
    by (cases e) (auto simp: is_text_def)
  show ?case using Cons x acc e by (simp add: read_text_def Let_def)
qed

lemma scan_raises:
  "scan d acc = Inl (x, s') \<Longrightarrow> x = UnicodeDecodeError \<and> (\<exists>(name, e) \<in> set d. \<not> is_text e)"
proof (induction d arbitrary: acc)
  case Nil
  then show ?case by simp
next
  case (Cons y d)
  obtain name e where y: "y = (name, e)" by (cases y)
  obtain recs0 total_files0 s0 where acc: "acc = (recs0, total_files0, s0)" by (metis prod_cases3)
  show ?case
  proof (cases e)
    case (TextFile body)
    then show ?thesis using Cons y acc
      by (auto simp: read_text_def Let_def split: if_splits)
  next
    case (ImageFile img)
    then show ?thesis using Cons.prems y acc by (simp add: read_text_def is_text_def)
  next
    case Unreadable
    then show ?thesis using Cons.prems y acc by (simp add: read_text_def is_text_def)
  qed
qed

lemma scanned_record:
  assumes "scan d ([], 0, s0) = Inr (recs, total_files, s1)" and "(b, lines) \<in> set recs"
  shows "(\<forall>l \<in> set lines. l \<noteq> []) \<and> 2 \<le> length lines"
proof -
  from scan_result[OF assms(1)] assms(2) obtain name e where
    "lines = entry_lines e" and len: "1 < length (entry_lines e)"
    by auto
  moreover have "\<forall>l \<in> set (entry_lines e). l \<noteq> []"
    by (cases e) (auto simp: entry_lines_def stripped_lines_nonempty)
  ultimately show ?thesis by auto
qed

section \<open>Records and the backup directory\<close>


lemma process_record_found:
  "find_image (files s) b = Some img_file \<Longrightarrow>
   process_record can_save (b, lines) s =
     (case try_body can_save b lines img_file (b @ ''.gt.txt'') (emit (InfoProcessing b) s) of
        (None, s2) \<Rightarrow> s2
      | (Some x, s2) \<Rightarrow> emit (ErrFailed b x) s2)"
  by (simp add: process_record_def Let_def)

lemma process_record_not_found:
  "find_image (files s) b = None \<Longrightarrow>
   process_record can_save (b, lines) s = emit (ErrImageNotFound b) s"
  by (simp add: process_record_def)

lemma mkdir_backup_Inr:
  "mkdir_backup s0 = Inr s1 \<Longrightarrow>
   backup s1 \<noteq> None \<and> files s1 = files s0 \<and> printed s1 = printed s0
   \<and> total_split s1 = total_split s0 \<and> mkdir_backup s1 = Inr s1
   \<and> (backup s0 \<noteq> None \<longrightarrow> s1 = s0)"
  by (auto simp: mkdir_backup_def split: if_splits option.splits)


lemma main_run:
  assumes "scan (glob_gt d) ([], 0, \<lparr>files = d, backup = bk0,
              printed = [MsgTitle, MsgRule, MsgAnalyzing], total_split = 0\<rparr>)
           = Inr (recs, n, s1)"
    and "recs \<noteq> []"
    and "mkdir_backup (emit MsgSplitting (emit (MsgFound (length recs) n) s1)) = Inr s4"
  shows "main can_save (Root d bk0) = (Completed, summary recs (process_all can_save recs s4))"
  using assms by (simp add: main_def Let_def)






section \<open>The output of a record\<close>


lemma length_format_03d: "3 \<le> length (format_03d i)"
  by (auto simp: format_03d_def zfill_def)

lemma enumerate_pos:
  "\<forall>l \<in> set lines. l \<noteq> [] \<Longrightarrow> \<forall>(i, t) \<in> set (enumerate_from 1 lines). 0 \<le> i \<and> t \<noteq> []"
  using fst_enumerate_from[of _ _ 1 lines] by fastforce

text \<open>
  Claim C6. With the lines of a record all non-empty, the loop raises \<open>total_split\<close> by one
  for every line it emits, so the emitted lines are those from 1 to the increase of
  \<open>total_split\<close>, whether the loop ran to its end or stopped at an exception. For every such
  line \<open>i\<close> the directory then holds the image \<open>base_name_line\<close>\<open>NNN\<close>\<open>.png\<close>, the crop of
  line 120, and the annotation file \<open>base_name_line\<close>\<open>NNN\<close>\<open>.gt.txt\<close>, whose content is the
  line's text and one newline; \<open>NNN\<close> is the decimal \<open>i\<close> padded with zeros to three
  digits. The names do not depend on the extension of the source image, and the backup
  directory is not written.
\<close>

theorem C6_line_outputs:
  assumes run: "split_lines can_save b img lh n (enumerate_from 1 lines) s = (r, s')"
    and ne: "\<forall>l \<in> set lines. l \<noteq> []"
    and i1: "1 \<le> i"
    and im: "i \<le> int (total_split s' - total_split s)"
  shows "nat i \<le> length lines
       \<and> map_of (files s') (b @ ''_line'' @ format_03d i @ ''.png'') =
           Some (ImageFile (crop img (crop_box (fst (image_size img)) (snd (image_size img)) lh n i)))
       \<and> map_of (files s') (b @ ''_line'' @ format_03d i @ ''.gt.txt'') =
           Some (TextFile (lines ! nat (i - 1) @ [CHR 0x0A]))
       \<and> new_img b i = b @ ''_line'' @ format_03d i @ ''.png''
       \<and> new_gt b i = b @ ''_line'' @ format_03d i @ ''.gt.txt''
       \<and> format_03d i = replicate (3 - length (str_nat (nat i))) CHR ''0'' @ str_nat (nat i)
       \<and> 3 \<le> length (format_03d i)
       \<and> val_of (format_03d i) = nat i
       \<and> backup s' = backup s"
proof -
  note em = split_lines_emitted[OF run distinct_enumerate_from enumerate_pos[OF ne]]
  let ?m = "total_split s' - total_split s"
  have m: "?m \<le> length lines" using em by simp
  have j: "nat (i - 1) < ?m" using i1 im by linarith
  then have jl: "nat (i - 1) < length lines" using m by simp
  have nth: "enumerate_from 1 lines ! nat (i - 1) = (i, lines ! nat (i - 1))"
    using nth_enumerate_from[OF jl, of 1] i1 by simp
  have "map_of (files s') (new_img b (fst (enumerate_from 1 lines ! nat (i - 1)))) =
              Some (ImageFile (line_crop img lh n (fst (enumerate_from 1 lines ! nat (i - 1)))))
            \<and> map_of (files s') (new_gt b (fst (enumerate_from 1 lines ! nat (i - 1)))) =
              Some (TextFile (snd (enumerate_from 1 lines ! nat (i - 1)) @ [CHR 0x0A]))"
    using em j by blast
  then have out: "map_of (files s') (new_img b i) = Some (ImageFile (line_crop img lh n i))"
      "map_of (files s') (new_gt b i) = Some (TextFile (lines ! nat (i - 1) @ [CHR 0x0A]))"
    unfolding nth by simp_all
  have names: "new_img b i = b @ ''_line'' @ format_03d i @ ''.png''"
      "new_gt b i = b @ ''_line'' @ format_03d i @ ''.gt.txt''"
    by (simp_all add: new_img_def new_gt_def new_base_def)
  have fmt: "format_03d i = replicate (3 - length (str_nat (nat i))) CHR ''0'' @ str_nat (nat i)"
    using i1 by (simp add: format_03d_def zfill_def)
  have v: "val_of (format_03d i) = nat i" using i1 by (simp add: val_of_format_03d)
  have bk: "backup s' = backup s" using split_lines_frame[OF run] by simp
  have le: "nat i \<le> length lines" using jl i1 by linarith
  show ?thesis
    using le out[unfolded names line_crop_def] names fmt length_format_03d[of i] v bk
    by (intro conjI)
qed

text \<open>The second of three lines over an image of three rows.\<close>

theorem C6_line_outputs_witness:
  "map_of (files (snd (split_lines (\<lambda>img. True) ''page1'' (Image 2 [[0, 0], [1, 1], [2, 2]]) 1 3
       (enumerate_from 1 [''Hello'', ''World'', ''Test''])
       \<lparr>files = [(''page1.jpg'', ImageFile (Image 2 [[0, 0], [1, 1], [2, 2]]))], backup = Some [],
        printed = [], total_split = 0\<rparr>))) ''page1_line002.png''
     = Some (ImageFile (Image 2 [[1, 1]]))
   \<and> map_of (files (snd (split_lines (\<lambda>img. True) ''page1'' (Image 2 [[0, 0], [1, 1], [2, 2]]) 1 3
       (enumerate_from 1 [''Hello'', ''World'', ''Test''])
       \<lparr>files = [(''page1.jpg'', ImageFile (Image 2 [[0, 0], [1, 1], [2, 2]]))], backup = Some [],
        printed = [], total_split = 0\<rparr>))) ''page1_line002.gt.txt''
     = Some (TextFile ''World\<newline>'')"
proof -
  let ?s = "\<lparr>files = [(''page1.jpg'', ImageFile (Image 2 [[0, 0], [1, 1], [2, 2]]))], backup = Some [],
        printed = [], total_split = 0\<rparr>"
  let ?run = "split_lines (\<lambda>img. True) ''page1'' (Image 2 [[0, 0], [1, 1], [2, 2]]) 1 3
       (enumerate_from 1 [''Hello'', ''World'', ''Test'']) ?s"
  have run: "?run = (fst ?run, snd ?run)" by simp
  have ne: "\<forall>l \<in> set [''Hello'', ''World'', ''Test'']. l \<noteq> []" by simp
  have cnt: "total_split (snd ?run) = 3" by code_simp
  have im: "(2::int) \<le> int (total_split (snd ?run) - total_split ?s)"
    unfolding cnt by simp
  have f: "format_03d 2 = ''002''" by code_simp
  have c: "crop (Image 2 [[0, 0], [1, 1], [2, 2]])
             (crop_box (fst (image_size (Image 2 [[0, 0], [1, 1], [2, 2]])))
                (snd (image_size (Image 2 [[0, 0], [1, 1], [2, 2]]))) 1 3 2) = Image 2 [[1, 1]]"
    by code_simp
  from C6_line_outputs[OF run ne _ im] show ?thesis
    unfolding f c by simp
qed

lemma distinct_new_names:
  "distinct (map (\<lambda>j. new_img b (1 + int j)) [0..<n] @ map (\<lambda>j. new_gt b (1 + int j)) [0..<n])"
proof -
  have "inj_on (\<lambda>j. new_img b (1 + int j)) {0..<n}"
  proof (rule inj_onI)
    fix x y assume "new_img b (1 + int x) = new_img b (1 + int y)"
    then have "1 + int x = 1 + int y" by (intro new_img_inj[of _ _ b]) simp_all
    then show "x = y" by simp
  qed
  moreover have "inj_on (\<lambda>j. new_gt b (1 + int j)) {0..<n}"
  proof (rule inj_onI)
    fix x y assume "new_gt b (1 + int x) = new_gt b (1 + int y)"
    then have "1 + int x = 1 + int y" by (intro new_gt_inj[of _ _ b]) simp_all
    then show "x = y" by simp
  qed
  ultimately show ?thesis
    using new_img_neq_new_gt[of b] by (auto simp: distinct_map)
qed

text \<open>
  Claim C8. A record of the scanner's list has at least two lines, none of them empty, so
  the test of line 107 is false at every turn of the loop: the turns that pass it are as many
  as the lines. When the record is processed without an exception, \<open>total_split\<close> grows by
  the number of lines, one message "Created" is printed for each line, and for each line the
  image (the crop of the line's box) and the annotation file are in the directory, under
  names that are all different.
\<close>

theorem C8_no_line_skipped:
  assumes sc: "scan d ([], 0, s0) = Inr (recs, n_files, s1)"
    and mem: "(b, lines) \<in> set recs"
    and fi: "find_image (files s) b = Some img_file"
    and tb: "try_body can_save b lines img_file (b @ ''.gt.txt'') (emit (InfoProcessing b) s) = (None, s')"
  shows "process_record can_save (b, lines) s = s'
       \<and> (\<forall>l \<in> set lines. l \<noteq> [])
       \<and> 2 \<le> length lines
       \<and> length (filter (\<lambda>(line_num, line_text). line_text \<noteq> []) (enumerate_from 1 lines))
           = length lines
       \<and> total_split s' = total_split s + length lines
       \<and> (\<exists>img. map_of (files s) img_file = Some (ImageFile img)
            \<and> (\<forall>j < length lines.
                  map_of (files s') (new_img b (1 + int j)) =
                    Some (ImageFile (crop img
                            (crop_box (fst (image_size img)) (snd (image_size img))
                               (snd (image_size img) div int (length lines))
                               (int (length lines)) (1 + int j))))
                \<and> map_of (files s') (new_gt b (1 + int j)) = Some (TextFile (lines ! j @ [CHR 0x0A])))
            \<and> printed s' = printed s
                @ [InfoProcessing b,
                   InfoImage (fst (image_size img)) (snd (image_size img)) (int (length lines))]
                @ map (\<lambda>(i, t). InfoCreated (new_base b i) (length t)) (enumerate_from 1 lines)
                @ [OkSplitInto (int (length lines))])
       \<and> distinct (map (\<lambda>j. new_img b (1 + int j)) [0..<length lines]
                   @ map (\<lambda>j. new_gt b (1 + int j)) [0..<length lines])"
proof -
  from scanned_record[OF sc mem] have ne: "\<forall>l \<in> set lines. l \<noteq> []" and two: "2 \<le> length lines"
    by blast+
  from find_image_Some[OF fi] obtain ext where ext: "ext \<in> set extensions" and f: "img_file = b @ ext"
    by blast
  have pr: "process_record can_save (b, lines) s = s'"
    using tb by (simp add: process_record_found[OF fi])
  have "filter (\<lambda>(line_num, line_text). line_text \<noteq> []) (enumerate_from 1 lines)
        = enumerate_from 1 lines"
    using enumerate_pos[OF ne] by (intro filter_True) auto
  then have bl: "length (filter (\<lambda>(line_num, line_text). line_text \<noteq> []) (enumerate_from 1 lines))
           = length lines"
    by simp
  have cnt: "total_split s' = total_split s + length lines"
    using record_split[OF tb[unfolded f] ext ne] by auto
  have out: "\<exists>img. map_of (files s) img_file = Some (ImageFile img)
            \<and> (\<forall>j < length lines.
                  map_of (files s') (new_img b (1 + int j)) =
                    Some (ImageFile (crop img
                            (crop_box (fst (image_size img)) (snd (image_size img))
                               (snd (image_size img) div int (length lines))
                               (int (length lines)) (1 + int j))))
                \<and> map_of (files s') (new_gt b (1 + int j)) = Some (TextFile (lines ! j @ [CHR 0x0A])))
            \<and> printed s' = printed s
                @ [InfoProcessing b,
                   InfoImage (fst (image_size img)) (snd (image_size img)) (int (length lines))]
                @ map (\<lambda>(i, t). InfoCreated (new_base b i) (length t)) (enumerate_from 1 lines)
                @ [OkSplitInto (int (length lines))]"
    using record_split[OF tb[unfolded f] ext ne] unfolding f
    apply (elim exE conjE)
    subgoal for img e bk bk'
      apply (rule exI[of _ img])
      apply (simp add: line_crop_def)
      done
    done
  show ?thesis
    by (intro conjI pr ne two bl cnt out distinct_new_names)
qed

text \<open>An annotation file with a blank line between its three lines of text.\<close>

theorem C8_no_line_skipped_witness:
  "process_record (\<lambda>img. True) (''page1'', [''Hello'', ''World'', ''Test''])
     \<lparr>files = [(''page1.gt.txt'', TextFile ''Hello\<newline>\<newline>  World \<newline>Test\<newline>''),
               (''page1.tif'', ImageFile (Image 1 [[7], [8], [9], [10]]))],
      backup = Some [], printed = [], total_split = 0\<rparr>
   = \<lparr>files = [(''page1_line001.png'', ImageFile (Image 1 [[7]])),
               (''page1_line001.gt.txt'', TextFile ''Hello\<newline>''),
               (''page1_line002.png'', ImageFile (Image 1 [[8]])),
               (''page1_line002.gt.txt'', TextFile ''World\<newline>''),
               (''page1_line003.png'', ImageFile (Image 1 [[9], [10]])),
               (''page1_line003.gt.txt'', TextFile ''Test\<newline>'')],
      backup = Some [(''page1.tif'', ImageFile (Image 1 [[7], [8], [9], [10]])),
                     (''page1.gt.txt'', TextFile ''Hello\<newline>\<newline>  World \<newline>Test\<newline>'')],
      printed = [InfoProcessing ''page1'', InfoImage 1 4 3, InfoCreated ''page1_line001'' 5,
                 InfoCreated ''page1_line002'' 5, InfoCreated ''page1_line003'' 4, OkSplitInto 3],
      total_split = 3\<rparr>"
proof -
  let ?d = "[(''page1.gt.txt'', TextFile ''Hello\<newline>\<newline>  World \<newline>Test\<newline>''),
               (''page1.tif'', ImageFile (Image 1 [[7], [8], [9], [10]]))]"
  let ?s = "\<lparr>files = ?d, backup = Some [], printed = [], total_split = 0\<rparr>"
  have sc: "scan (glob_gt ?d) ([], 0, ?s) = Inr ([(''page1'', [''Hello'', ''World'', ''Test''])], 1,
        \<lparr>files = ?d, backup = Some [], printed = [InfoFoundMultiline ''page1'' 3], total_split = 0\<rparr>)"
    by code_simp
  have mem: "(''page1'', [''Hello'', ''World'', ''Test'']) \<in> set [(''page1'', [''Hello'', ''World'', ''Test''])]"
    by simp
  have fi: "find_image (files ?s) ''page1'' = Some ''page1.tif''"
    by code_simp
  have tb: "try_body (\<lambda>img. True) ''page1'' [''Hello'', ''World'', ''Test''] ''page1.tif''
              (''page1'' @ ''.gt.txt'') (emit (InfoProcessing ''page1'') ?s)
     = (None,
        \<lparr>files = [(''page1_line001.png'', ImageFile (Image 1 [[7]])),
               (''page1_line001.gt.txt'', TextFile ''Hello\<newline>''),
               (''page1_line002.png'', ImageFile (Image 1 [[8]])),
               (''page1_line002.gt.txt'', TextFile ''World\<newline>''),
               (''page1_line003.png'', ImageFile (Image 1 [[9], [10]])),
               (''page1_line003.gt.txt'', TextFile ''Test\<newline>'')],
         backup = Some [(''page1.tif'', ImageFile (Image 1 [[7], [8], [9], [10]])),
                     (''page1.gt.txt'', TextFile ''Hello\<newline>\<newline>  World \<newline>Test\<newline>'')],
         printed = [InfoProcessing ''page1'', InfoImage 1 4 3, InfoCreated ''page1_line001'' 5,
                 InfoCreated ''page1_line002'' 5, InfoCreated ''page1_line003'' 4, OkSplitInto 3],
         total_split = 3\<rparr>)"
    by code_simp
  from C8_no_line_skipped[OF sc mem fi tb] show ?thesis
    by (rule conjunct1)
qed

section \<open>Finding the image of a record\<close>


lemma find_image_Some_iff:
  "(find_image d b = Some f) =
   (\<exists>k < length extensions. f = b @ extensions ! k \<and> exists d f
      \<and> (\<forall>j < k. \<not> exists d (b @ extensions ! j)))"
  by (auto simp: find_image_def find_Some_iff)

lemma find_image_None_iff:
  "(find_image d b = None) = (\<forall>ext \<in> set extensions. \<not> exists d (b @ ext))"
  by (auto simp: find_image_def find_None_iff)

text \<open>
  Claim C5. The image of a record is looked for under the base name followed by \<open>.png\<close>,
  \<open>.jpg\<close>, \<open>.jpeg\<close>, \<open>.tif\<close>, \<open>.tiff\<close>, \<open>.PNG\<close>, \<open>.JPG\<close>, \<open>.JPEG\<close>, in this order, and the
  first name that exists is taken. When none exists, processing the record only prints the
  error for its base name: no file is written or moved and the counter stays; the loop then
  goes on with the next record.
\<close>

theorem C5_image_lookup:
  "extensions = [''.png'', ''.jpg'', ''.jpeg'', ''.tif'', ''.tiff'', ''.PNG'', ''.JPG'', ''.JPEG'']
   \<and> ((find_image d b = Some f) =
        (\<exists>k < length extensions. f = b @ extensions ! k \<and> exists d f
           \<and> (\<forall>j < k. \<not> exists d (b @ extensions ! j))))
   \<and> ((find_image d b = None) = (\<forall>ext \<in> set extensions. \<not> exists d (b @ ext)))
   \<and> (find_image (files s) b = None \<longrightarrow>
        process_record can_save (b, lines) s = emit (ErrImageNotFound b) s
        \<and> files (process_record can_save (b, lines) s) = files s
        \<and> backup (process_record can_save (b, lines) s) = backup s
        \<and> total_split (process_record can_save (b, lines) s) = total_split s
        \<and> printed (process_record can_save (b, lines) s) = printed s @ [ErrImageNotFound b]
        \<and> process_all can_save ((b, lines) # rest) s =
            process_all can_save rest (emit (ErrImageNotFound b) s))"
  using find_image_Some_iff[of d b f] find_image_None_iff[of d b]
  by (simp add: extensions_def process_record_not_found)

text \<open>
  A directory with \<open>p.JPG\<close> and \<open>p.jpg\<close> and no other image: \<open>p.jpg\<close> is taken. A record
  \<open>q\<close> with no image, followed by the record \<open>p\<close>: \<open>q\<close> is reported and \<open>p\<close> is split.
\<close>

theorem C5_image_lookup_witness:
  "find_image [(''p.JPG'', ImageFile (Image 1 [[1], [2]])), (''p.jpg'', ImageFile (Image 1 [[3], [4]])),
               (''p.gt.txt'', TextFile ''a\<newline>b'')] ''p'' = Some ''p.jpg''
   \<and> process_all (\<lambda>img. True) [(''q'', [''x'', ''y'']), (''p'', [''a'', ''b''])]
        \<lparr>files = [(''p.JPG'', ImageFile (Image 1 [[1], [2]])), (''p.jpg'', ImageFile (Image 1 [[3], [4]])),
                  (''p.gt.txt'', TextFile ''a\<newline>b'')],
         backup = Some [], printed = [], total_split = 0\<rparr>
      = \<lparr>files = [(''p.JPG'', ImageFile (Image 1 [[1], [2]])),
                  (''p_line001.png'', ImageFile (Image 1 [[3]])), (''p_line001.gt.txt'', TextFile ''a\<newline>''),
                  (''p_line002.png'', ImageFile (Image 1 [[4]])), (''p_line002.gt.txt'', TextFile ''b\<newline>'')],
         backup = Some [(''p.jpg'', ImageFile (Image 1 [[3], [4]])), (''p.gt.txt'', TextFile ''a\<newline>b'')],
         printed = [ErrImageNotFound ''q'', InfoProcessing ''p'', InfoImage 1 2 2,
                    InfoCreated ''p_line001'' 1, InfoCreated ''p_line002'' 1, OkSplitInto 2],
         total_split = 2\<rparr>"
proof -
  let ?d = "[(''p.JPG'', ImageFile (Image 1 [[1], [2]])), (''p.jpg'', ImageFile (Image 1 [[3], [4]])),
               (''p.gt.txt'', TextFile ''a\<newline>b'')]"
  let ?s = "\<lparr>files = ?d, backup = Some [], printed = [], total_split = 0\<rparr>"
  have a: "find_image ?d ''p'' = Some ''p.jpg''" by code_simp
  have none: "find_image (files ?s) ''q'' = None" by code_simp
  have rest: "process_all (\<lambda>img. True) [(''p'', [''a'', ''b''])] (emit (ErrImageNotFound ''q'') ?s)
      = \<lparr>files = [(''p.JPG'', ImageFile (Image 1 [[1], [2]])),
                  (''p_line001.png'', ImageFile (Image 1 [[3]])), (''p_line001.gt.txt'', TextFile ''a\<newline>''),
                  (''p_line002.png'', ImageFile (Image 1 [[4]])), (''p_line002.gt.txt'', TextFile ''b\<newline>'')],
         backup = Some [(''p.jpg'', ImageFile (Image 1 [[3], [4]])), (''p.gt.txt'', TextFile ''a\<newline>b'')],
         printed = [ErrImageNotFound ''q'', InfoProcessing ''p'', InfoImage 1 2 2,
                    InfoCreated ''p_line001'' 1, InfoCreated ''p_line002'' 1, OkSplitInto 2],
         total_split = 2\<rparr>"
    by code_simp
  from C5_image_lookup[where s = ?s and b = "''q''" and can_save = "\<lambda>img. True"
      and lines = "[''x'', ''y'']" and rest = "[(''p'', [''a'', ''b''])]"] none
  have "process_all (\<lambda>img. True) ((''q'', [''x'', ''y'']) # [(''p'', [''a'', ''b''])]) ?s =
            process_all (\<lambda>img. True) [(''p'', [''a'', ''b''])] (emit (ErrImageNotFound ''q'') ?s)"
    by blast
  then show ?thesis using a rest by simp
qed

section \<open>The whole run\<close>


lemma strip_ends:
  assumes "strip s \<noteq> []"
  shows "\<not> isspace (hd (strip s)) \<and> \<not> isspace (last (strip s))"
proof -
  let ?t = "dropWhile isspace s"
  let ?u = "dropWhile isspace (rev ?t)"
  have u: "?u \<noteq> []" using assms by (simp add: strip_def)
  have t: "?t \<noteq> []"
  proof
    assume e: "?t = []"
    have "?u = []" unfolding e by simp
    then show False using u by simp
  qed
  have "\<not> isspace (hd ?u)" using u by (rule hd_dropWhile)
  then have l: "\<not> isspace (last (strip s))" using u by (simp add: strip_def last_rev)
  have "rev ?t = takeWhile isspace (rev ?t) @ ?u" by simp
  then have "last (rev ?t) = last ?u" using u by (metis last_appendR)
  then have "last ?u = hd ?t" using t by (simp add: last_rev)
  moreover have "\<not> isspace (hd ?t)" using t by (rule hd_dropWhile)
  ultimately have "\<not> isspace (hd (strip s))" using u by (simp add: strip_def hd_rev)
  then show ?thesis using l by simp
qed

lemma stripped_lines_ends:
  "l \<in> set (stripped_lines body) \<Longrightarrow> l \<noteq> [] \<and> \<not> isspace (hd l) \<and> \<not> isspace (last l)"
  by (auto simp: stripped_lines_def strip_ends)

lemma move_to_backup_frame:
  "move_to_backup f s = Inr s' \<Longrightarrow> name \<noteq> f \<Longrightarrow> map_of (files s') name = map_of (files s) name"
  by (auto simp: delete_conv' dest!: move_to_backup_Inr)


lemma files_summary [simp]: "files (summary recs s) = files s"
  by (simp add: summary_def Let_def)

lemma main_scan_raises:
  "scan (glob_gt d) ([], 0, \<lparr>files = d, backup = bk,
      printed = [MsgTitle, MsgRule, MsgAnalyzing], total_split = 0\<rparr>) = Inl (x, s') \<Longrightarrow>
   main can_save (Root d bk) = (Uncaught x, s')"
  by (simp add: main_def)

lemma main_all_single:
  "scan (glob_gt d) ([], 0, \<lparr>files = d, backup = bk,
      printed = [MsgTitle, MsgRule, MsgAnalyzing], total_split = 0\<rparr>) = Inr ([], n, s1) \<Longrightarrow>
   main can_save (Root d bk) = (Completed, \<lparr>files = d, backup = bk,
      printed = [MsgTitle, MsgRule, MsgAnalyzing, OkAllSingle n], total_split = 0\<rparr>)"
proof -
  assume sc: "scan (glob_gt d) ([], 0, \<lparr>files = d, backup = bk,
      printed = [MsgTitle, MsgRule, MsgAnalyzing], total_split = 0\<rparr>) = Inr ([], n, s1)"
  from scan_result[OF sc] have "files s1 = d" "backup s1 = bk" "total_split s1 = 0"
    "printed s1 = [MsgTitle, MsgRule, MsgAnalyzing]"
    by simp_all
  then have "s1 = \<lparr>files = d, backup = bk,
      printed = [MsgTitle, MsgRule, MsgAnalyzing], total_split = 0\<rparr>"
    by (cases s1) simp
  then show ?thesis using sc by (simp add: main_def emit_def)
qed

lemma main_mkdir_raises:
  assumes "scan (glob_gt d) ([], 0, \<lparr>files = d, backup = bk0,
              printed = [MsgTitle, MsgRule, MsgAnalyzing], total_split = 0\<rparr>)
           = Inr (recs, n, s1)"
    and "recs \<noteq> []"
    and "mkdir_backup (emit MsgSplitting (emit (MsgFound (length recs) n) s1)) = Inl x"
  shows "main can_save (Root d bk0) = (Uncaught x, emit MsgSplitting (emit (MsgFound (length recs) n) s1))"
  using assms by (simp add: main_def Let_def)

lemma mkdir_backup_cases:
  "mkdir_backup s = (if exists (files s) ''multiline_originals'' then Inl FileExistsError
     else Inr (case backup s of None \<Rightarrow> s\<lparr>backup := Some []\<rparr> | Some b \<Rightarrow> s))"
  by (simp add: mkdir_backup_def split: option.splits)


lemma main_outcome:
  "fst (main can_save (Root d bk)) =
     (if \<exists>(name, e) \<in> set (glob_gt d). \<not> is_text e then Uncaught UnicodeDecodeError
      else if \<forall>(name, e) \<in> set (glob_gt d). length (entry_lines e) \<le> 1 then Completed
      else if exists d ''multiline_originals'' then Uncaught FileExistsError
      else Completed)"
proof (cases "scan (glob_gt d) ([], 0, \<lparr>files = d, backup = bk,
              printed = [MsgTitle, MsgRule, MsgAnalyzing], total_split = 0\<rparr>)")
  case (Inl xs)
  obtain x s' where xs: "xs = (x, s')" by (cases xs)
  note raised = Inl[unfolded xs]
  from scan_raises[OF raised] main_scan_raises[OF raised] show ?thesis by auto
next
  case (Inr res)
  obtain recs n s1 where res: "res = (recs, n, s1)" by (metis prod_cases3)
  note sc = Inr[unfolded res]
  note sr = scan_result[OF sc]
  have alltext: "\<not> (\<exists>(name, e) \<in> set (glob_gt d). \<not> is_text e)" using sr by auto
  have recs: "recs = map (\<lambda>(name, e). (base_name_of name, entry_lines e))
                    (filter (\<lambda>(name, e). 1 < length (entry_lines e)) (glob_gt d))"
    using sr by simp
  have empty: "(recs = []) = (\<forall>(name, e) \<in> set (glob_gt d). length (entry_lines e) \<le> 1)"
    unfolding recs by (auto simp: filter_empty_conv not_less)
  show ?thesis
  proof (cases "recs = []")
    case True
    then show ?thesis using main_all_single[of d bk n s1 can_save] sc alltext empty by simp
  next
    case False
    let ?s3 = "emit MsgSplitting (emit (MsgFound (length recs) n) s1)"
    have f3: "files ?s3 = d" using sr by simp
    show ?thesis
    proof (cases "exists d ''multiline_originals''")
      case True
      then have "mkdir_backup ?s3 = Inl FileExistsError" using f3 by (simp add: mkdir_backup_cases)
      from main_mkdir_raises[OF sc False this] show ?thesis
        using alltext empty False True by simp
    next
      case nex: False
      then obtain s4 where "mkdir_backup ?s3 = Inr s4" using f3 by (simp add: mkdir_backup_cases)
      from main_run[OF sc False this] show ?thesis
        using alltext empty False nex by simp
    qed
  qed
qed

lemma entry_lines_text:
  "is_text e \<Longrightarrow> \<exists>body. e = TextFile body
     \<and> entry_lines e = map strip (filter (\<lambda>line. strip line \<noteq> []) (text_lines (universal_newlines body)))"
  by (cases e) (simp_all add: is_text_def entry_lines_def stripped_lines_def)

lemma entry_lines_ends:
  "l \<in> set (entry_lines e) \<Longrightarrow> l \<noteq> [] \<and> \<not> isspace (hd l) \<and> \<not> isspace (last l)"
  by (cases e) (simp_all add: entry_lines_def stripped_lines_ends)

lemma try_body_frame:
  assumes "try_body can_save b lines img_file gt_file s = (r, s')"
    and "name \<noteq> img_file" "name \<noteq> gt_file"
    and "\<forall>(i, t) \<in> set (enumerate_from 1 lines). name \<noteq> new_img b i \<and> name \<noteq> new_gt b i"
  shows "map_of (files s') name = map_of (files s) name"
proof (cases "open_image (files s) img_file")
  case (Inl x)
  then show ?thesis using assms(1) by (simp add: try_body_def)
next
  case (Inr img)
  let ?n = "int (length lines)"
  let ?s1 = "emit (InfoImage (fst (image_size img)) (snd (image_size img)) ?n) s"
  show ?thesis
  proof (cases "?n = 0")
    case True
    then show ?thesis using assms(1) Inr by (auto simp: try_body_def Let_def split: prod.splits)
  next
    case False
    obtain r2 s2 where sl: "split_lines can_save b img (snd (image_size img) div ?n) ?n
        (enumerate_from 1 lines) ?s1 = (r2, s2)"
      by (cases "split_lines can_save b img (snd (image_size img) div ?n) ?n
        (enumerate_from 1 lines) ?s1") auto
    have k2: "map_of (files s2) name = map_of (files s) name"
      using split_lines_frame[OF sl] assms(4) by auto
    have tb: "(r, s') = (case r2 of
                 Some x \<Rightarrow> (Some x, s2)
               | None \<Rightarrow> (case move_to_backup img_file s2 of
                           Inl x \<Rightarrow> (Some x, s2)
                         | Inr s3 \<Rightarrow> (case move_to_backup gt_file s3 of
                                Inl x \<Rightarrow> (Some x, s3)
                              | Inr s4 \<Rightarrow> (None, emit (OkSplitInto ?n) s4))))"
      using assms(1) Inr False sl
      by (simp add: try_body_def Let_def split: prod.splits option.splits)
    show ?thesis
    proof (cases r2)
      case (Some x)
      then show ?thesis using tb k2 by simp
    next
      case None
      show ?thesis
      proof (cases "move_to_backup img_file s2")
        case (Inl x)
        then show ?thesis using tb None k2 by simp
      next
        case (Inr s3)
        note m1 = Inr
        have k3: "map_of (files s3) name = map_of (files s2) name"
          using move_to_backup_frame[OF m1 assms(2)] .
        show ?thesis
        proof (cases "move_to_backup gt_file s3")
          case (Inl x)
          then show ?thesis using tb None m1 k2 k3 by simp
        next
          case (Inr s4)
          have "map_of (files s4) name = map_of (files s3) name"
            using move_to_backup_frame[OF Inr assms(3)] .
          then show ?thesis using tb None m1 Inr k2 k3 by simp
        qed
      qed
    qed
  qed
qed

lemma record_footprint_found:
  "find_image d b = Some img_file \<Longrightarrow> open_image d img_file = Inr img \<Longrightarrow>
   set (record_footprint d b lines) =
     {img_file, b @ ''.gt.txt''}
     \<union> (\<Union>(i, t) \<in> set (enumerate_from 1 lines). {new_img b i, new_gt b i})"
  by (auto simp: record_footprint_def)

lemma process_record_frame:
  assumes "name \<notin> set (record_footprint (files s) b lines)"
  shows "map_of (files (process_record can_save (b, lines) s)) name = map_of (files s) name"
proof (cases "find_image (files s) b")
  case None
  then show ?thesis by (simp add: process_record_not_found)
next
  case (Some img_file)
  show ?thesis
  proof (cases "open_image (files s) img_file")
    case (Inl x)
    then have "try_body can_save b lines img_file (b @ ''.gt.txt'') (emit (InfoProcessing b) s)
               = (Some x, emit (InfoProcessing b) s)"
      by (simp add: try_body_def)
    then show ?thesis by (simp add: process_record_found[OF Some])
  next
    case (Inr img)
    note fp = record_footprint_found[OF Some Inr, of lines]
    have ni: "name \<noteq> img_file" and ng: "name \<noteq> b @ ''.gt.txt''"
      and nl: "\<forall>(i, t) \<in> set (enumerate_from 1 lines). name \<noteq> new_img b i \<and> name \<noteq> new_gt b i"
      using assms unfolding fp by auto
    obtain r s2 where tb: "try_body can_save b lines img_file (b @ ''.gt.txt'')
        (emit (InfoProcessing b) s) = (r, s2)"
      by (cases "try_body can_save b lines img_file (b @ ''.gt.txt'') (emit (InfoProcessing b) s)") auto
    from try_body_frame[OF tb ni ng nl]
    have "map_of (files s2) name = map_of (files s) name" by simp
    then show ?thesis using tb by (cases r) (simp_all add: process_record_found[OF Some])
  qed
qed

lemma process_all_frame:
  assumes "name \<notin> set (footprint can_save recs s)"
  shows "map_of (files (process_all can_save recs s)) name = map_of (files s) name"
  using assms
proof (induction recs arbitrary: s)
  case Nil
  show ?case by simp
next
  case (Cons r recs)
  obtain b lines where r: "r = (b, lines)" by (cases r)
  have "map_of (files (process_record can_save (b, lines) s)) name = map_of (files s) name"
    using Cons.prems r by (intro process_record_frame) auto
  moreover have "map_of (files (process_all can_save recs (process_record can_save r s))) name =
      map_of (files (process_record can_save r s)) name"
    using Cons.prems r by (intro Cons.IH) auto
  ultimately show ?case using r by simp
qed

lemma main_frame:
  assumes sc: "scan (glob_gt d) ([], 0, \<lparr>files = d, backup = bk,
              printed = [MsgTitle, MsgRule, MsgAnalyzing], total_split = 0\<rparr>)
           = Inr (recs, n, s1)"
    and mk: "mkdir_backup (emit MsgSplitting (emit (MsgFound (length recs) n) s1)) = Inr s4"
    and un: "name \<notin> set (footprint can_save recs s4)"
  shows "map_of (files (snd (main can_save (Root d bk)))) name = map_of d name"
proof (cases "recs = []")
  case True
  then show ?thesis using main_all_single[of d bk n s1 can_save] sc by simp
next
  case False
  have f1: "files s1 = d" using scan_result[OF sc] by simp
  have f4: "files s4 = d" using mkdir_backup_Inr[OF mk] f1 by simp
  from main_run[OF sc False mk] show ?thesis
    using process_all_frame[OF un] f4 by simp
qed

text \<open>
  Claim C2, as the code has it. The scan reads every file whose name ends with \<open>.gt.txt\<close>,
  strips each of its lines and drops the lines that are then empty: every line it keeps is
  non-empty and has no whitespace at either end. The multi-line list holds, in the order of
  the scan, the base name and the kept lines of exactly the files with more than
  \<open>MAX_LINES = 1\<close> kept lines. The scan changes no file. When no file is multi-line the run
  ends there: the directory is as it was and the backup directory is not made. When the
  backup directory cannot be made the directory is as it was too. Otherwise the records
  are processed one after the other, and a file keeps its content unless its name is, for
  some multi-line record whose image is found and opens when its turn comes, the name of
  that image, the name \<open>base_name.gt.txt\<close>, or the name of an output of one of the record's
  lines 1 to \<open>N\<close>: nothing is written or moved for any other file, single-line or not.
\<close>

theorem C2_scan_classifies:
  assumes sc: "scan (glob_gt d) ([], 0, \<lparr>files = d, backup = bk,
                  printed = [MsgTitle, MsgRule, MsgAnalyzing], total_split = 0\<rparr>)
               = Inr (recs, n_files, s1)"
  shows "recs = map (\<lambda>(name, e). (base_name_of name, entry_lines e))
                  (filter (\<lambda>(name, e). MAX_LINES < length (entry_lines e)) (glob_gt d))
       \<and> MAX_LINES = 1
       \<and> n_files = length (glob_gt d)
       \<and> (\<forall>(name, e) \<in> set (glob_gt d). \<exists>body. e = TextFile body
             \<and> entry_lines e =
                 map strip (filter (\<lambda>line. strip line \<noteq> []) (text_lines (universal_newlines body))))
       \<and> (\<forall>(b, lines) \<in> set recs. 1 < length lines
             \<and> (\<forall>l \<in> set lines. l \<noteq> [] \<and> \<not> isspace (hd l) \<and> \<not> isspace (last l)))
       \<and> files s1 = d \<and> backup s1 = bk
       \<and> (recs = [] \<longrightarrow>
             main can_save (Root d bk) =
               (Completed, \<lparr>files = d, backup = bk,
                  printed = [MsgTitle, MsgRule, MsgAnalyzing, OkAllSingle n_files], total_split = 0\<rparr>))
       \<and> (\<forall>x. recs \<noteq> [] \<and>
               mkdir_backup (emit MsgSplitting (emit (MsgFound (length recs) n_files) s1)) = Inl x \<longrightarrow>
             fst (main can_save (Root d bk)) = Uncaught x
             \<and> files (snd (main can_save (Root d bk))) = d)
       \<and> (\<forall>s4 name.
             mkdir_backup (emit MsgSplitting (emit (MsgFound (length recs) n_files) s1)) = Inr s4
             \<and> name \<notin> set (footprint can_save recs s4) \<longrightarrow>
             map_of (files (snd (main can_save (Root d bk)))) name = map_of d name)"
proof -
  note sr = scan_result[OF sc]
  have recs: "recs = map (\<lambda>(name, e). (base_name_of name, entry_lines e))
                  (filter (\<lambda>(name, e). MAX_LINES < length (entry_lines e)) (glob_gt d))"
    using sr by (simp add: MAX_LINES_def)
  have n: "n_files = length (glob_gt d)" using sr by simp
  have rd: "\<forall>(name, e) \<in> set (glob_gt d). \<exists>body. e = TextFile body
             \<and> entry_lines e =
                 map strip (filter (\<lambda>line. strip line \<noteq> []) (text_lines (universal_newlines body)))"
    using sr entry_lines_text by fast
  have ln: "\<forall>(b, lines) \<in> set recs. 1 < length lines
             \<and> (\<forall>l \<in> set lines. l \<noteq> [] \<and> \<not> isspace (hd l) \<and> \<not> isspace (last l))"
    unfolding recs using entry_lines_ends by (auto simp: MAX_LINES_def)
  have fs: "files s1 = d" "backup s1 = bk" using sr by simp_all
  have single: "recs = [] \<longrightarrow>
             main can_save (Root d bk) =
               (Completed, \<lparr>files = d, backup = bk,
                  printed = [MsgTitle, MsgRule, MsgAnalyzing, OkAllSingle n_files], total_split = 0\<rparr>)"
    using main_all_single[of d bk n_files s1 can_save] sc by simp
  have raised: "\<forall>x. recs \<noteq> [] \<and>
               mkdir_backup (emit MsgSplitting (emit (MsgFound (length recs) n_files) s1)) = Inl x \<longrightarrow>
             fst (main can_save (Root d bk)) = Uncaught x
             \<and> files (snd (main can_save (Root d bk))) = d"
    using main_mkdir_raises[OF sc] fs by simp
  have fr: "\<forall>s4 name.
             mkdir_backup (emit MsgSplitting (emit (MsgFound (length recs) n_files) s1)) = Inr s4
             \<and> name \<notin> set (footprint can_save recs s4) \<longrightarrow>
             map_of (files (snd (main can_save (Root d bk)))) name = map_of d name"
    using main_frame[OF sc] by blast
  show ?thesis
    by (intro conjI recs MAX_LINES_def n rd ln fs single raised fr)
qed

text \<open>
  A directory with a single-line annotation file (blank lines around its text), a
  three-line one with its image, a second image under the same base name, a single-line
  annotation file under the name a fifth line would have, and a file that is not an
  annotation file. The record \<open>page1\<close> is split, and the other files stay as they are.
\<close>

theorem C2_scan_classifies_witness:
  "scan (glob_gt [(''a.gt.txt'', TextFile ''\<newline>  one line  \<newline>\<newline>''),
                  (''page1.gt.txt'', TextFile ''Hello\<newline>\<newline> World\<newline>Test''),
                  (''notes.txt'', TextFile ''x\<newline>y\<newline>z''),
                  (''page1.png'', ImageFile (Image 1 [[7], [8], [9]])),
                  (''page1.jpg'', ImageFile (Image 1 [[1]])),
                  (''page1_line005.gt.txt'', TextFile ''five'')])
        ([], 0, \<lparr>files = [(''a.gt.txt'', TextFile ''\<newline>  one line  \<newline>\<newline>''),
                  (''page1.gt.txt'', TextFile ''Hello\<newline>\<newline> World\<newline>Test''),
                  (''notes.txt'', TextFile ''x\<newline>y\<newline>z''),
                  (''page1.png'', ImageFile (Image 1 [[7], [8], [9]])),
                  (''page1.jpg'', ImageFile (Image 1 [[1]])),
                  (''page1_line005.gt.txt'', TextFile ''five'')],
                 backup = None, printed = [MsgTitle, MsgRule, MsgAnalyzing], total_split = 0\<rparr>)
     = Inr ([(''page1'', [''Hello'', ''World'', ''Test''])], 3,
            \<lparr>files = [(''a.gt.txt'', TextFile ''\<newline>  one line  \<newline>\<newline>''),
                  (''page1.gt.txt'', TextFile ''Hello\<newline>\<newline> World\<newline>Test''),
                  (''notes.txt'', TextFile ''x\<newline>y\<newline>z''),
                  (''page1.png'', ImageFile (Image 1 [[7], [8], [9]])),
                  (''page1.jpg'', ImageFile (Image 1 [[1]])),
                  (''page1_line005.gt.txt'', TextFile ''five'')],
             backup = None,
             printed = [MsgTitle, MsgRule, MsgAnalyzing, InfoFoundMultiline ''page1'' 3],
             total_split = 0\<rparr>)
   \<and> map_of (files (snd (main (\<lambda>img. True)
        (Root [(''a.gt.txt'', TextFile ''\<newline>  one line  \<newline>\<newline>''),
               (''page1.gt.txt'', TextFile ''Hello\<newline>\<newline> World\<newline>Test''),
               (''notes.txt'', TextFile ''x\<newline>y\<newline>z''),
               (''page1.png'', ImageFile (Image 1 [[7], [8], [9]])),
               (''page1.jpg'', ImageFile (Image 1 [[1]])),
               (''page1_line005.gt.txt'', TextFile ''five'')] None)))) ''a.gt.txt''
     = Some (TextFile ''\<newline>  one line  \<newline>\<newline>'')
   \<and> map_of (files (snd (main (\<lambda>img. True)
        (Root [(''a.gt.txt'', TextFile ''\<newline>  one line  \<newline>\<newline>''),
               (''page1.gt.txt'', TextFile ''Hello\<newline>\<newline> World\<newline>Test''),
               (''notes.txt'', TextFile ''x\<newline>y\<newline>z''),
               (''page1.png'', ImageFile (Image 1 [[7], [8], [9]])),
               (''page1.jpg'', ImageFile (Image 1 [[1]])),
               (''page1_line005.gt.txt'', TextFile ''five'')] None)))) ''page1.jpg''
     = Some (ImageFile (Image 1 [[1]]))
   \<and> map_of (files (snd (main (\<lambda>img. True)
        (Root [(''a.gt.txt'', TextFile ''\<newline>  one line  \<newline>\<newline>''),
               (''page1.gt.txt'', TextFile ''Hello\<newline>\<newline> World\<newline>Test''),
               (''notes.txt'', TextFile ''x\<newline>y\<newline>z''),
               (''page1.png'', ImageFile (Image 1 [[7], [8], [9]])),
               (''page1.jpg'', ImageFile (Image 1 [[1]])),
               (''page1_line005.gt.txt'', TextFile ''five'')] None)))) ''page1_line005.gt.txt''
     = Some (TextFile ''five'')
   \<and> footprint (\<lambda>img. True) [(''page1'', [''Hello'', ''World'', ''Test''])]
        \<lparr>files = [(''a.gt.txt'', TextFile ''\<newline>  one line  \<newline>\<newline>''),
                  (''page1.gt.txt'', TextFile ''Hello\<newline>\<newline> World\<newline>Test''),
                  (''notes.txt'', TextFile ''x\<newline>y\<newline>z''),
                  (''page1.png'', ImageFile (Image 1 [[7], [8], [9]])),
                  (''page1.jpg'', ImageFile (Image 1 [[1]])),
                  (''page1_line005.gt.txt'', TextFile ''five'')],
         backup = Some [],
         printed = [MsgTitle, MsgRule, MsgAnalyzing, InfoFoundMultiline ''page1'' 3,
                    MsgFound 1 3, MsgSplitting],
         total_split = 0\<rparr>
     = [''page1.png'', ''page1.gt.txt'', ''page1_line001.png'', ''page1_line001.gt.txt'',
        ''page1_line002.png'', ''page1_line002.gt.txt'', ''page1_line003.png'',
        ''page1_line003.gt.txt'']"
proof -
  let ?d = "[(''a.gt.txt'', TextFile ''\<newline>  one line  \<newline>\<newline>''),
                  (''page1.gt.txt'', TextFile ''Hello\<newline>\<newline> World\<newline>Test''),
                  (''notes.txt'', TextFile ''x\<newline>y\<newline>z''),
                  (''page1.png'', ImageFile (Image 1 [[7], [8], [9]])),
                  (''page1.jpg'', ImageFile (Image 1 [[1]])),
                  (''page1_line005.gt.txt'', TextFile ''five'')]"
  let ?recs = "[(''page1'', [''Hello'', ''World'', ''Test''])]"
  let ?s1 = "\<lparr>files = ?d, backup = None,
             printed = [MsgTitle, MsgRule, MsgAnalyzing, InfoFoundMultiline ''page1'' 3],
             total_split = 0\<rparr>"
  let ?s4 = "\<lparr>files = ?d, backup = Some [],
         printed = [MsgTitle, MsgRule, MsgAnalyzing, InfoFoundMultiline ''page1'' 3,
                    MsgFound 1 3, MsgSplitting],
         total_split = 0\<rparr>"
  have sc: "scan (glob_gt ?d)
        ([], 0, \<lparr>files = ?d, backup = None, printed = [MsgTitle, MsgRule, MsgAnalyzing], total_split = 0\<rparr>)
     = Inr (?recs, 3, ?s1)"
    by code_simp
  have mk: "mkdir_backup (emit MsgSplitting (emit (MsgFound (length ?recs) 3) ?s1)) = Inr ?s4"
    by code_simp
  have fp: "footprint (\<lambda>img. True) ?recs ?s4
     = [''page1.png'', ''page1.gt.txt'', ''page1_line001.png'', ''page1_line001.gt.txt'',
        ''page1_line002.png'', ''page1_line002.gt.txt'', ''page1_line003.png'',
        ''page1_line003.gt.txt'']"
    by code_simp
  have out: "''a.gt.txt'' \<notin> set (footprint (\<lambda>img. True) ?recs ?s4)"
      "''page1.jpg'' \<notin> set (footprint (\<lambda>img. True) ?recs ?s4)"
      "''page1_line005.gt.txt'' \<notin> set (footprint (\<lambda>img. True) ?recs ?s4)"
    unfolding fp by simp_all
  note c2 = C2_scan_classifies[OF sc, of "\<lambda>img. True"]
  note fr = c2[THEN conjunct2, THEN conjunct2, THEN conjunct2, THEN conjunct2, THEN conjunct2,
               THEN conjunct2, THEN conjunct2, THEN conjunct2, THEN conjunct2, rule_format]
  have "map_of (files (snd (main (\<lambda>img. True) (Root ?d None)))) ''a.gt.txt'' = map_of ?d ''a.gt.txt''"
    "map_of (files (snd (main (\<lambda>img. True) (Root ?d None)))) ''page1.jpg'' = map_of ?d ''page1.jpg''"
    "map_of (files (snd (main (\<lambda>img. True) (Root ?d None)))) ''page1_line005.gt.txt''
       = map_of ?d ''page1_line005.gt.txt''"
    using fr[of ?s4] mk out by blast+
  then show ?thesis using sc fp by simp
qed

text \<open>
  The claim as written fails where the name of a single-line file is also the name of an
  output of a multi-line record: \<open>a_line001.gt.txt\<close> has one line and is not in the
  multi-line list, and splitting the record \<open>a\<close> overwrites it.
\<close>

theorem C2_single_line_file_overwritten_counterexample:
  "stripped_lines ''old'' = [''old'']
   \<and> scan (glob_gt [(''a.gt.txt'', TextFile ''x\<newline>y''), (''a.png'', ImageFile (Image 1 [[1], [2]])),
                    (''a_line001.gt.txt'', TextFile ''old'')])
        ([], 0, \<lparr>files = [(''a.gt.txt'', TextFile ''x\<newline>y''), (''a.png'', ImageFile (Image 1 [[1], [2]])),
                           (''a_line001.gt.txt'', TextFile ''old'')],
                  backup = None, printed = [MsgTitle, MsgRule, MsgAnalyzing], total_split = 0\<rparr>)
     = Inr ([(''a'', [''x'', ''y''])], 2,
            \<lparr>files = [(''a.gt.txt'', TextFile ''x\<newline>y''), (''a.png'', ImageFile (Image 1 [[1], [2]])),
                      (''a_line001.gt.txt'', TextFile ''old'')],
             backup = None, printed = [MsgTitle, MsgRule, MsgAnalyzing, InfoFoundMultiline ''a'' 2],
             total_split = 0\<rparr>)
   \<and> main (\<lambda>img. True)
        (Root [(''a.gt.txt'', TextFile ''x\<newline>y''), (''a.png'', ImageFile (Image 1 [[1], [2]])),
               (''a_line001.gt.txt'', TextFile ''old'')] None)
     = (Completed,
        \<lparr>files = [(''a_line001.gt.txt'', TextFile ''x\<newline>''),
                  (''a_line001.png'', ImageFile (Image 1 [[1]])),
                  (''a_line002.png'', ImageFile (Image 1 [[2]])),
                  (''a_line002.gt.txt'', TextFile ''y\<newline>'')],
         backup = Some [(''a.png'', ImageFile (Image 1 [[1], [2]])), (''a.gt.txt'', TextFile ''x\<newline>y'')],
         printed = [MsgTitle, MsgRule, MsgAnalyzing, InfoFoundMultiline ''a'' 2, MsgFound 1 2,
                    MsgSplitting, InfoProcessing ''a'', InfoImage 1 2 2, InfoCreated ''a_line001'' 1,
                    InfoCreated ''a_line002'' 1, OkSplitInto 2, MsgRule, MsgSummary, MsgRule,
                    OkSuccessfullySplit 1, InfoBackupLocation, OkTotalSingleLine 2, MsgNextSteps,
                    InfoNextStep 1, InfoNextStep 2, InfoNextStep 3, OkDone],
         total_split = 2\<rparr>)"
  by code_simp

section \<open>Exit status, errors and the summary\<close>


lemma main_no_root:
  "main can_save NoRoot =
     (SysExit 1, \<lparr>files = [], backup = None, printed = [MsgTitle, MsgRule, ErrDirNotFound],
                 total_split = 0\<rparr>)"
  by (simp add: main_def)

lemma process_record_failed:
  assumes "find_image (files s) b = Some img_file"
    and "try_body can_save b lines img_file (b @ ''.gt.txt'') (emit (InfoProcessing b) s) = (Some x, s2)"
  shows "process_record can_save (b, lines) s = emit (ErrFailed b x) s2"
  using assms(2) by (simp add: process_record_found[OF assms(1)])

lemma try_body_split_fails:
  assumes "open_image (files s) img_file = Inr img" and "lines \<noteq> []"
    and "split_lines can_save b img (snd (image_size img) div int (length lines)) (int (length lines))
           (enumerate_from 1 lines)
           (emit (InfoImage (fst (image_size img)) (snd (image_size img)) (int (length lines))) s)
         = (Some x, s2)"
  shows "try_body can_save b lines img_file gt_file s = (Some x, s2)"
  using assms by (simp add: try_body_def Let_def case_prod_beta)

text \<open>
  Claim C4, as the code has it. Without the ground-truth directory the run prints the error
  and exits with status 1. With the directory, the status is 0 or 1, and it is not 0 in
  exactly two cases, both an exception raised outside the \<open>try\<close> of line 94: an annotation
  file that cannot be read as text during the scan, or, when some file is multi-line, a file
  named \<open>multiline_originals\<close> where the backup directory is to be made. What the imaging
  library does (\<open>can_save\<close>) and how many records fail plays no part. An exception raised in
  the \<open>try\<close> of a record is caught: the record's error is printed, the files are left as
  they were when it was raised (what the record wrote before stays), and the loop goes on
  with the next record. When the loop over the lines stops at an exception, the body of the
  \<open>try\<close> stops with it, in the state the loop had reached.
\<close>

theorem C4_exit_status:
  "exit_status (fst (main can_save NoRoot)) = 1
   \<and> printed (snd (main can_save NoRoot)) = [MsgTitle, MsgRule, ErrDirNotFound]
   \<and> ((exit_status (fst (main can_save (Root d bk))) \<noteq> 0) =
        ((\<exists>(name, e) \<in> set (glob_gt d). \<not> is_text e)
         \<or> ((\<exists>(name, e) \<in> set (glob_gt d). 1 < length (entry_lines e))
            \<and> exists d ''multiline_originals'')))
   \<and> exit_status (fst (main can_save (Root d bk))) \<in> {0, 1}
   \<and> (find_image (files s) b = Some img_file
        \<and> try_body can_save b lines img_file (b @ ''.gt.txt'') (emit (InfoProcessing b) s) = (Some x, s2) \<longrightarrow>
        process_record can_save (b, lines) s = emit (ErrFailed b x) s2
        \<and> files (process_record can_save (b, lines) s) = files s2
        \<and> backup (process_record can_save (b, lines) s) = backup s2
        \<and> printed (process_record can_save (b, lines) s) = printed s2 @ [ErrFailed b x]
        \<and> process_all can_save ((b, lines) # rest) s =
            process_all can_save rest (emit (ErrFailed b x) s2))
   \<and> (open_image (files s) img_file = Inr img \<and> lines \<noteq> []
        \<and> split_lines can_save b img (snd (image_size img) div int (length lines)) (int (length lines))
             (enumerate_from 1 lines)
             (emit (InfoImage (fst (image_size img)) (snd (image_size img)) (int (length lines))) s)
           = (Some x, s2) \<longrightarrow>
        try_body can_save b lines img_file gt_file s = (Some x, s2))"
proof -
  have a: "exit_status (fst (main can_save NoRoot)) = 1"
      "printed (snd (main can_save NoRoot)) = [MsgTitle, MsgRule, ErrDirNotFound]"
    by (simp_all add: main_no_root exit_status_def)
  have neg: "(\<not> (\<forall>(name, e) \<in> set (glob_gt d). length (entry_lines e) \<le> 1)) =
      (\<exists>(name, e) \<in> set (glob_gt d). 1 < length (entry_lines e))"
    by (simp add: case_prod_beta not_le)
  have b: "(exit_status (fst (main can_save (Root d bk))) \<noteq> 0) =
        ((\<exists>(name, e) \<in> set (glob_gt d). \<not> is_text e)
         \<or> ((\<exists>(name, e) \<in> set (glob_gt d). 1 < length (entry_lines e))
            \<and> exists d ''multiline_originals''))"
    unfolding main_outcome neg[symmetric] by (simp add: exit_status_def)
  have c: "exit_status (fst (main can_save (Root d bk))) \<in> {0, 1}"
    unfolding main_outcome by (simp add: exit_status_def)
  have e: "find_image (files s) b = Some img_file
        \<and> try_body can_save b lines img_file (b @ ''.gt.txt'') (emit (InfoProcessing b) s) = (Some x, s2) \<longrightarrow>
        process_record can_save (b, lines) s = emit (ErrFailed b x) s2
        \<and> files (process_record can_save (b, lines) s) = files s2
        \<and> backup (process_record can_save (b, lines) s) = backup s2
        \<and> printed (process_record can_save (b, lines) s) = printed s2 @ [ErrFailed b x]
        \<and> process_all can_save ((b, lines) # rest) s =
            process_all can_save rest (emit (ErrFailed b x) s2)"
    using process_record_failed[of s b img_file can_save lines x s2] by simp
  have f: "open_image (files s) img_file = Inr img \<and> lines \<noteq> []
        \<and> split_lines can_save b img (snd (image_size img) div int (length lines)) (int (length lines))
             (enumerate_from 1 lines)
             (emit (InfoImage (fst (image_size img)) (snd (image_size img)) (int (length lines))) s)
           = (Some x, s2) \<longrightarrow>
        try_body can_save b lines img_file gt_file s = (Some x, s2)"
    using try_body_split_fails[of s img_file img lines can_save b x s2 gt_file] by blast
  show ?thesis
    by (intro conjI a b c e f)
qed

text \<open>
  Two records and a library that cannot save an image of two rows: the second line of the
  first record fails after its first line was written; the second record is split; the
  status is 0.
\<close>

theorem C4_exit_status_witness:
  "main (\<lambda>img. length (rows img) \<noteq> 2)
     (Root [(''a.gt.txt'', TextFile ''x\<newline>y''), (''a.png'', ImageFile (Image 1 [[1], [2], [3]])),
            (''b.gt.txt'', TextFile ''u\<newline>v''), (''b.png'', ImageFile (Image 1 [[4], [5]]))] None)
   = (Completed,
      \<lparr>files = [(''a.gt.txt'', TextFile ''x\<newline>y''), (''a.png'', ImageFile (Image 1 [[1], [2], [3]])),
                (''a_line001.png'', ImageFile (Image 1 [[1]])), (''a_line001.gt.txt'', TextFile ''x\<newline>''),
                (''b_line001.png'', ImageFile (Image 1 [[4]])), (''b_line001.gt.txt'', TextFile ''u\<newline>''),
                (''b_line002.png'', ImageFile (Image 1 [[5]])), (''b_line002.gt.txt'', TextFile ''v\<newline>'')],
       backup = Some [(''b.png'', ImageFile (Image 1 [[4], [5]])), (''b.gt.txt'', TextFile ''u\<newline>v'')],
       printed = [MsgTitle, MsgRule, MsgAnalyzing, InfoFoundMultiline ''a'' 2, InfoFoundMultiline ''b'' 2,
                  MsgFound 2 2, MsgSplitting,
                  InfoProcessing ''a'', InfoImage 1 3 2, InfoCreated ''a_line001'' 1,
                  ErrFailed ''a'' SaveError,
                  InfoProcessing ''b'', InfoImage 1 2 2, InfoCreated ''b_line001'' 1,
                  InfoCreated ''b_line002'' 1, OkSplitInto 2,
                  MsgRule, MsgSummary, MsgRule, OkSuccessfullySplit 2, InfoBackupLocation,
                  OkTotalSingleLine 4, MsgNextSteps, InfoNextStep 1, InfoNextStep 2, InfoNextStep 3,
                  OkDone],
       total_split = 3\<rparr>)
   \<and> exit_status (fst (main (\<lambda>img. length (rows img) \<noteq> 2)
     (Root [(''a.gt.txt'', TextFile ''x\<newline>y''), (''a.png'', ImageFile (Image 1 [[1], [2], [3]])),
            (''b.gt.txt'', TextFile ''u\<newline>v''), (''b.png'', ImageFile (Image 1 [[4], [5]]))] None))) = 0"
proof -
  let ?d = "[(''a.gt.txt'', TextFile ''x\<newline>y''), (''a.png'', ImageFile (Image 1 [[1], [2], [3]])),
            (''b.gt.txt'', TextFile ''u\<newline>v''), (''b.png'', ImageFile (Image 1 [[4], [5]]))]"
  have run: "main (\<lambda>img. length (rows img) \<noteq> 2) (Root ?d None)
   = (Completed,
      \<lparr>files = [(''a.gt.txt'', TextFile ''x\<newline>y''), (''a.png'', ImageFile (Image 1 [[1], [2], [3]])),
                (''a_line001.png'', ImageFile (Image 1 [[1]])), (''a_line001.gt.txt'', TextFile ''x\<newline>''),
                (''b_line001.png'', ImageFile (Image 1 [[4]])), (''b_line001.gt.txt'', TextFile ''u\<newline>''),
                (''b_line002.png'', ImageFile (Image 1 [[5]])), (''b_line002.gt.txt'', TextFile ''v\<newline>'')],
       backup = Some [(''b.png'', ImageFile (Image 1 [[4], [5]])), (''b.gt.txt'', TextFile ''u\<newline>v'')],
       printed = [MsgTitle, MsgRule, MsgAnalyzing, InfoFoundMultiline ''a'' 2, InfoFoundMultiline ''b'' 2,
                  MsgFound 2 2, MsgSplitting,
                  InfoProcessing ''a'', InfoImage 1 3 2, InfoCreated ''a_line001'' 1,
                  ErrFailed ''a'' SaveError,
                  InfoProcessing ''b'', InfoImage 1 2 2, InfoCreated ''b_line001'' 1,
                  InfoCreated ''b_line002'' 1, OkSplitInto 2,
                  MsgRule, MsgSummary, MsgRule, OkSuccessfullySplit 2, InfoBackupLocation,
                  OkTotalSingleLine 4, MsgNextSteps, InfoNextStep 1, InfoNextStep 2, InfoNextStep 3,
                  OkDone],
       total_split = 3\<rparr>)"
    by code_simp
  have ok: "\<not> ((\<exists>(name, e) \<in> set (glob_gt ?d). \<not> is_text e)
         \<or> ((\<exists>(name, e) \<in> set (glob_gt ?d). 1 < length (entry_lines e))
            \<and> exists ?d ''multiline_originals''))"
    by code_simp
  note c4 = C4_exit_status[where d = ?d and bk = None and can_save = "\<lambda>img. length (rows img) \<noteq> 2"]
  from c4[THEN conjunct2, THEN conjunct2, THEN conjunct1] ok
  have "exit_status (fst (main (\<lambda>img. length (rows img) \<noteq> 2) (Root ?d None))) = 0"
    by blast
  then show ?thesis using run by simp
qed

text \<open>
  The claim as written fails: the directory is there, one annotation file cannot be read as
  text, and the run dies of the exception with status 1.
\<close>

theorem C4_unreadable_annotation_counterexample:
  "main (\<lambda>img. True) (Root [(''a.gt.txt'', Unreadable)] None)
     = (Uncaught UnicodeDecodeError,
        \<lparr>files = [(''a.gt.txt'', Unreadable)], backup = None,
         printed = [MsgTitle, MsgRule, MsgAnalyzing], total_split = 0\<rparr>)
   \<and> exit_status (fst (main (\<lambda>img. True) (Root [(''a.gt.txt'', Unreadable)] None))) = 1
   \<and> Root [(''a.gt.txt'', Unreadable)] None \<noteq> NoRoot"
  by code_simp

text \<open>
  Claim C7 on a directory whose only annotation file has two lines and no image: the record
  is not split (the error is printed, \<open>total_split\<close> stays 0), and the summary prints the
  number of multi-line files found, 1, as the number successfully split.
\<close>

theorem C7_summary_counts_found_records:
  "main (\<lambda>img. True) (Root [(''a.gt.txt'', TextFile ''x\<newline>y'')] None)
     = (Completed,
        \<lparr>files = [(''a.gt.txt'', TextFile ''x\<newline>y'')], backup = Some [],
         printed = [MsgTitle, MsgRule, MsgAnalyzing, InfoFoundMultiline ''a'' 2, MsgFound 1 1,
                    MsgSplitting, ErrImageNotFound ''a'', MsgRule, MsgSummary, MsgRule,
                    OkSuccessfullySplit 1, InfoBackupLocation, OkTotalSingleLine 1, MsgNextSteps,
                    InfoNextStep 1, InfoNextStep 2, InfoNextStep 3, OkDone],
         total_split = 0\<rparr>)"
  by code_simp

section \<open>The bands of a record\<close>

lemma enumerate_bound:
  "(i, t) \<in> set (enumerate_from k ls) \<Longrightarrow> k \<le> i \<and> i < k + int (length ls)"
  by (induction ls arbitrary: k) force+

lemma len_take_drop:
  "0 \<le> u \<Longrightarrow> u \<le> l \<Longrightarrow> l \<le> int (length xs) \<Longrightarrow>
   int (length (take (nat (l - u)) (drop (nat u) xs))) = l - u"
  by (simp add: min_def) linarith

lemma rows_crop_box:
  assumes "image_size img = (W, H)" "0 \<le> v_start (crop_box W H lh n i)"
    and "v_start (crop_box W H lh n i) \<le> v_end (crop_box W H lh n i)"
    and "v_end (crop_box W H lh n i) \<le> H"
  shows "width (crop img (crop_box W H lh n i)) = nat W"
    and "int (length (rows (crop img (crop_box W H lh n i)))) =
         v_end (crop_box W H lh n i) - v_start (crop_box W H lh n i)"
proof -
  have h: "H = int (length (rows img))" using assms(1) by (simp add: image_size_def)
  show "width (crop img (crop_box W H lh n i)) = nat W"
    by (simp add: crop_def crop_box_def)
  show "int (length (rows (crop img (crop_box W H lh n i)))) =
         v_end (crop_box W H lh n i) - v_start (crop_box W H lh n i)"
    using assms(2-4) unfolding h
    by (simp add: crop_def crop_box_def v_start_def v_end_def len_take_drop)
qed

lemma crop_encodable:
  fixes H W n :: int
  assumes sz: "image_size img = (W, H)" and n: "0 < n" "n \<le> H" and w: "1 \<le> W"
    and i: "1 \<le> i" "i \<le> n"
  shows "encodable (crop img (crop_box W H (H div n) n i))"
proof -
  have h0: "0 \<le> H" using n by simp
  have "0 < H div n" using n by (simp add: pos_imp_zdiv_pos_iff)
  then have lh: "1 \<le> H div n" by simp
  note bb = band_bounds[OF h0 n(1) i]
  have "n * (H div n) + H mod n = H" by simp
  moreover have "0 \<le> H mod n" using n by simp
  ultimately have nlh: "n * (H div n) \<le> H" by linarith
  have height: "(i - 1) * (H div n) < (if i < n then i * (H div n) else H)"
  proof (cases "i < n")
    case True
    have "(i - 1) * (H div n) + (H div n) = i * (H div n)" by (simp add: algebra_simps)
    then show ?thesis using True lh by simp
  next
    case False
    then have "i = n" using i by simp
    moreover have "(n - 1) * (H div n) + (H div n) = n * (H div n)" by (simp add: algebra_simps)
    ultimately show ?thesis using nlh lh by simp
  qed
  have rows: "int (length (rows (crop img (crop_box W H (H div n) n i)))) =
         v_end (crop_box W H (H div n) n i) - v_start (crop_box W H (H div n) n i)"
    using bb by (intro rows_crop_box[OF sz]) (simp_all add: v_start_crop_box v_end_crop_box)
  have "0 < int (length (rows (crop img (crop_box W H (H div n) n i))))"
    unfolding rows using height by (simp add: v_start_crop_box v_end_crop_box)
  moreover have "width (crop img (crop_box W H (H div n) n i)) = nat W"
    using bb by (intro rows_crop_box[OF sz]) (simp_all add: v_start_crop_box v_end_crop_box)
  ultimately show ?thesis using w by (auto simp: encodable_def)
qed

lemma process_record_loop_done:
  assumes fi: "find_image (files s) b = Some img_file"
    and op: "map_of (files s) img_file = Some (ImageFile img)"
    and ne: "lines \<noteq> []"
    and sl: "split_lines can_save b img (snd (image_size img) div int (length lines))
               (int (length lines)) (enumerate_from 1 lines)
               (emit (InfoImage (fst (image_size img)) (snd (image_size img)) (int (length lines)))
                  (emit (InfoProcessing b) s))
             = (None, s2)"
  shows "total_split (process_record can_save (b, lines) s) = total_split s2
       \<and> (\<forall>name. name \<noteq> img_file \<and> name \<noteq> b @ ''.gt.txt'' \<longrightarrow>
             map_of (files (process_record can_save (b, lines) s)) name = map_of (files s2) name)"
proof -
  let ?s0 = "emit (InfoProcessing b) s"
  have oi: "open_image (files ?s0) img_file = Inr img" using op by (simp add: open_image_def)
  have tb: "try_body can_save b lines img_file (b @ ''.gt.txt'') ?s0 =
        (case move_to_backup img_file s2 of
           Inl x \<Rightarrow> (Some x, s2)
         | Inr s3 \<Rightarrow> (case move_to_backup (b @ ''.gt.txt'') s3 of
                        Inl x \<Rightarrow> (Some x, s3)
                      | Inr s4 \<Rightarrow> (None, emit (OkSplitInto (int (length lines))) s4)))"
    using oi ne sl by (auto simp: try_body_def Let_def split: prod.splits)
  show ?thesis
  proof (cases "move_to_backup img_file s2")
    case (Inl x)
    then show ?thesis using tb by (simp add: process_record_found[OF fi])
  next
    case (Inr s3)
    note m1 = Inr
    from move_to_backup_Inr[OF m1] have t3: "total_split s3 = total_split s2" by auto
    have k3: "\<forall>name. name \<noteq> img_file \<longrightarrow> map_of (files s3) name = map_of (files s2) name"
      using move_to_backup_frame[OF m1] by blast
    show ?thesis
    proof (cases "move_to_backup (b @ ''.gt.txt'') s3")
      case (Inl x)
      then show ?thesis using tb m1 t3 k3 by (simp add: process_record_found[OF fi])
    next
      case (Inr s4)
      from move_to_backup_Inr[OF Inr] have t4: "total_split s4 = total_split s3" by auto
      have k4: "\<forall>name. name \<noteq> b @ ''.gt.txt'' \<longrightarrow> map_of (files s4) name = map_of (files s3) name"
        using move_to_backup_frame[OF Inr] by blast
      show ?thesis using tb m1 Inr t3 t4 k3 k4 by (simp add: process_record_found[OF fi])
    qed
  qed
qed

lemma process_record_loop_fails:
  assumes fi: "find_image (files s) b = Some img_file"
    and op: "map_of (files s) img_file = Some (ImageFile img)"
    and ne: "lines \<noteq> []"
    and sl: "split_lines can_save b img (snd (image_size img) div int (length lines))
               (int (length lines)) (enumerate_from 1 lines)
               (emit (InfoImage (fst (image_size img)) (snd (image_size img)) (int (length lines)))
                  (emit (InfoProcessing b) s))
             = (Some x, s2)"
  shows "process_record can_save (b, lines) s = emit (ErrFailed b x) s2"
proof -
  have oi: "open_image (files (emit (InfoProcessing b) s)) img_file = Inr img"
    using op by (simp add: open_image_def)
  from try_body_split_fails[OF oi ne sl]
  show ?thesis by (simp add: process_record_found[OF fi])
qed

lemma loop_runs_through:
  fixes W H :: int
  assumes sz: "image_size img = (W, H)"
    and ne: "\<forall>l \<in> set lines. l \<noteq> []"
    and nonempty: "lines \<noteq> []"
    and hn: "int (length lines) \<le> H" and w: "1 \<le> W"
    and sv: "\<forall>i \<in> {1..int (length lines)}.
               can_save (crop img (crop_box W H (H div int (length lines)) (int (length lines)) i))"
  shows "\<exists>s2. split_lines can_save b img (H div int (length lines)) (int (length lines))
                 (enumerate_from 1 lines) s1 = (None, s2)
             \<and> total_split s2 = total_split s1 + length lines
             \<and> (\<forall>j < length lines.
                  map_of (files s2) (new_img b (1 + int j)) =
                    Some (ImageFile (crop img (crop_box W H (H div int (length lines))
                                                 (int (length lines)) (1 + int j)))))"
proof -
  let ?n = "int (length lines)"
  have n0: "0 < ?n" using nonempty by simp
  have lc: "line_crop img (H div ?n) ?n i = crop img (crop_box W H (H div ?n) ?n i)" for i
    by (simp add: line_crop_def sz)
  have "\<forall>(i, t) \<in> set (enumerate_from 1 lines). t \<noteq> [] \<longrightarrow>
      encodable (line_crop img (H div ?n) ?n i) \<and> can_save (line_crop img (H div ?n) ?n i)"
  proof (clarify)
    fix i t assume "(i, t) \<in> set (enumerate_from 1 lines)"
    then have i: "1 \<le> i" "i \<le> ?n" using enumerate_bound[of i t 1 lines] by auto
    have "encodable (crop img (crop_box W H (H div ?n) ?n i))"
      using sz n0 hn w i by (rule crop_encodable)
    moreover have "can_save (crop img (crop_box W H (H div ?n) ?n i))" using sv i by simp
    ultimately show "encodable (line_crop img (H div ?n) ?n i) \<and> can_save (line_crop img (H div ?n) ?n i)"
      by (simp add: lc)
  qed
  from split_lines_total[OF this] obtain s2 where
    sl: "split_lines can_save b img (H div ?n) ?n (enumerate_from 1 lines) s1 = (None, s2)"
    by blast
  note em = split_lines_emitted[OF sl distinct_enumerate_from enumerate_pos[OF ne]]
  note fr = split_lines_frame[OF sl]
  have "total_split s2 - total_split s1 = length lines" using em by simp
  moreover have "total_split s1 \<le> total_split s2" using fr by simp
  ultimately have cnt: "total_split s2 = total_split s1 + length lines" by linarith
  have out: "\<forall>j < length lines.
          map_of (files s2) (new_img b (1 + int j)) =
            Some (ImageFile (crop img (crop_box W H (H div ?n) ?n (1 + int j))))"
    using em cnt by (simp add: nth_enumerate_from lc)
  show ?thesis using sl cnt out by blast
qed

text \<open>
  Claim C1, as the code has it. Take a record of \<open>N \<ge> 2\<close> non-empty lines whose image is
  found, opens, and has width \<open>W \<ge> 1\<close> and height \<open>H \<ge> N\<close>, and let the imaging library
  save each of the crops. With \<open>line_height = H div N\<close>, processing the record crops and
  saves \<open>N\<close> rectangles: for every \<open>i\<close> from 1 to \<open>N\<close> the file \<open>base_name_line\<close>\<open>NNN\<close>\<open>.png\<close>
  is the crop of the image by \<open>(0, (i - 1) * line_height, W, y_end)\<close>, with
  \<open>y_end = i * line_height\<close> for \<open>i < N\<close> and \<open>y_end = H\<close> for \<open>i = N\<close>, and \<open>total_split\<close>
  grows by \<open>N\<close>. Each band starts where the one before ends, the first starts at 0, the last
  ends at \<open>H\<close>, the vertical ranges are pairwise disjoint, their union is \<open>[0, H)\<close>, the
  bands before the last have height \<open>line_height\<close> and the last has height
  \<open>H - (N - 1) * line_height\<close>.
\<close>

theorem C1_bands_partition:
  fixes W H N line_height :: int
  assumes fi: "find_image (files s) base_name = Some img_file"
    and op: "map_of (files s) img_file = Some (ImageFile img)"
    and sz: "image_size img = (W, H)"
    and n: "N = int (length lines)"
    and two: "2 \<le> N"
    and ne: "\<forall>l \<in> set lines. l \<noteq> []"
    and hn: "N \<le> H"
    and w: "1 \<le> W"
    and lh: "line_height = H div N"
    and sv: "\<forall>i \<in> {1..N}. can_save (crop img (crop_box W H line_height N i))"
  shows "(\<forall>i \<in> {1..N}.
            crop_box W H line_height N i =
              (0, (i - 1) * line_height, W, if i < N then i * line_height else H)
          \<and> map_of (files (process_record can_save (base_name, lines) s)) (new_img base_name i) =
              Some (ImageFile (crop img (crop_box W H line_height N i))))
       \<and> total_split (process_record can_save (base_name, lines) s) = total_split s + length lines
       \<and> (\<forall>i \<in> {1..<N}. v_end (crop_box W H line_height N i) =
                            v_start (crop_box W H line_height N (i + 1))
                        \<and> v_end (crop_box W H line_height N i)
                            - v_start (crop_box W H line_height N i) = line_height)
       \<and> v_start (crop_box W H line_height N 1) = 0
       \<and> v_end (crop_box W H line_height N N) = H
       \<and> v_end (crop_box W H line_height N N) - v_start (crop_box W H line_height N N) =
           H - (N - 1) * line_height
       \<and> (\<forall>i \<in> {1..N}. \<forall>j \<in> {1..N}. i \<noteq> j \<longrightarrow>
             v_range (crop_box W H line_height N i) \<inter> v_range (crop_box W H line_height N j) = {})
       \<and> (\<Union>i \<in> {1..N}. v_range (crop_box W H line_height N i)) = {0..<H}"
proof -
  have nonempty: "lines \<noteq> []" using n two by auto
  have n0: "0 < N" and h0: "0 \<le> H" using two hn by simp_all
  let ?s1 = "emit (InfoImage W H N) (emit (InfoProcessing base_name) s)"
  from loop_runs_through[OF sz ne nonempty hn[unfolded n] w sv[unfolded n lh], of base_name ?s1]
  obtain s2 where
    sl: "split_lines can_save base_name img line_height N (enumerate_from 1 lines) ?s1 = (None, s2)"
    and cnt: "total_split s2 = total_split s + length lines"
    and out: "\<forall>j < length lines.
                  map_of (files s2) (new_img base_name (1 + int j)) =
                    Some (ImageFile (crop img (crop_box W H line_height N (1 + int j))))"
    unfolding n lh by auto
  have sl': "split_lines can_save base_name img (snd (image_size img) div int (length lines))
               (int (length lines)) (enumerate_from 1 lines)
               (emit (InfoImage (fst (image_size img)) (snd (image_size img)) (int (length lines)))
                  (emit (InfoProcessing base_name) s))
             = (None, s2)"
    using sl by (simp add: sz n lh)
  note rec = process_record_loop_done[OF fi op nonempty sl']
  from find_image_Some[OF fi] obtain ext where
    ext: "ext \<in> set extensions" and f: "img_file = base_name @ ext" by blast
  have names: "new_img base_name i \<noteq> img_file" "new_img base_name i \<noteq> base_name @ ''.gt.txt''" for i
    using original_neq_new(3)[OF ext, of base_name i] original_neq_new(1)[of base_name i] f
    by auto
  have files: "map_of (files (process_record can_save (base_name, lines) s)) (new_img base_name i) =
              Some (ImageFile (crop img (crop_box W H line_height N i)))"
    if i: "i \<in> {1..N}" for i
  proof -
    have j: "nat (i - 1) < length lines" and e: "1 + int (nat (i - 1)) = i" using i n by auto
    have "map_of (files s2) (new_img base_name i) =
             Some (ImageFile (crop img (crop_box W H line_height N i)))"
      using out j e by (metis)
    then show ?thesis using rec names[of i] by simp
  qed
  have c1: "\<forall>i \<in> {1..N}.
            crop_box W H line_height N i =
              (0, (i - 1) * line_height, W, if i < N then i * line_height else H)
          \<and> map_of (files (process_record can_save (base_name, lines) s)) (new_img base_name i) =
              Some (ImageFile (crop img (crop_box W H line_height N i)))"
    using files by (simp add: crop_box_eq)
  have c2: "total_split (process_record can_save (base_name, lines) s) = total_split s + length lines"
    using rec cnt by simp
  have c3: "\<forall>i \<in> {1..<N}. v_end (crop_box W H line_height N i) =
                            v_start (crop_box W H line_height N (i + 1))
                        \<and> v_end (crop_box W H line_height N i)
                            - v_start (crop_box W H line_height N i) = line_height"
    by (simp add: v_start_crop_box v_end_crop_box algebra_simps)
  have c4: "v_start (crop_box W H line_height N 1) = 0" by (simp add: v_start_crop_box)
  have c5: "v_end (crop_box W H line_height N N) = H" by (simp add: v_end_crop_box)
  have c6: "v_end (crop_box W H line_height N N) - v_start (crop_box W H line_height N N) =
           H - (N - 1) * line_height"
    by (simp add: v_start_crop_box v_end_crop_box)
  have c7: "\<forall>i \<in> {1..N}. \<forall>j \<in> {1..N}. i \<noteq> j \<longrightarrow>
             v_range (crop_box W H line_height N i) \<inter> v_range (crop_box W H line_height N j) = {}"
  proof (intro ballI impI)
    fix i j assume i: "i \<in> {1..N}" and j: "j \<in> {1..N}" and d: "i \<noteq> j"
    show "v_range (crop_box W H line_height N i) \<inter> v_range (crop_box W H line_height N j) = {}"
    proof (cases "i < j")
      case True
      then show ?thesis using box_disjoint[OF h0 n0, of i j W] j by (simp add: lh)
    next
      case False
      then have "j < i" using d by simp
      then show ?thesis using box_disjoint[OF h0 n0, of j i W] i by (auto simp: lh)
    qed
  qed
  have c8: "(\<Union>i \<in> {1..N}. v_range (crop_box W H line_height N i)) = {0..<H}"
    unfolding lh using h0 n0 by (rule box_union)
  show ?thesis by (intro conjI c1 c2 c3 c4 c5 c6 c7 c8)
qed

text \<open>
  Three lines over an image two pixels wide and ten rows high: the bands are the rows 0 to
  3, 3 to 6 and 6 to 10.
\<close>

theorem C1_bands_partition_witness:
  "map_of (files (process_record (\<lambda>img. True) (''page1'', [''Hello'', ''World'', ''Test''])
      \<lparr>files = [(''page1.gt.txt'', TextFile ''Hello\<newline>World\<newline>Test\<newline>''),
                (''page1.png'', ImageFile (Image 2 [[0, 0], [1, 1], [2, 2], [3, 3], [4, 4],
                                                    [5, 5], [6, 6], [7, 7], [8, 8], [9, 9]]))],
        backup = Some [], printed = [], total_split = 0\<rparr>)) ''page1_line003.png''
     = Some (ImageFile (Image 2 [[6, 6], [7, 7], [8, 8], [9, 9]]))
   \<and> crop_box 2 10 3 3 1 = (0, 0, 2, 3)
   \<and> crop_box 2 10 3 3 2 = (0, 3, 2, 6)
   \<and> crop_box 2 10 3 3 3 = (0, 6, 2, 10)
   \<and> (\<Union>i \<in> {1..3}. v_range (crop_box 2 10 3 3 i)) = {0..<10}
   \<and> total_split (process_record (\<lambda>img. True) (''page1'', [''Hello'', ''World'', ''Test''])
      \<lparr>files = [(''page1.gt.txt'', TextFile ''Hello\<newline>World\<newline>Test\<newline>''),
                (''page1.png'', ImageFile (Image 2 [[0, 0], [1, 1], [2, 2], [3, 3], [4, 4],
                                                    [5, 5], [6, 6], [7, 7], [8, 8], [9, 9]]))],
        backup = Some [], printed = [], total_split = 0\<rparr>) = 3"
proof -
  let ?img = "Image 2 [[0, 0], [1, 1], [2, 2], [3, 3], [4, 4], [5, 5], [6, 6], [7, 7], [8, 8], [9, 9]]"
  let ?lines = "[''Hello'', ''World'', ''Test'']"
  let ?st = "\<lparr>files = [(''page1.gt.txt'', TextFile ''Hello\<newline>World\<newline>Test\<newline>''),
                      (''page1.png'', ImageFile ?img)],
              backup = Some [], printed = [], total_split = 0\<rparr>"
  have fi: "find_image (files ?st) ''page1'' = Some ''page1.png''" by code_simp
  have op: "map_of (files ?st) ''page1.png'' = Some (ImageFile ?img)" by simp
  have sz: "image_size ?img = (2, 10)" by (simp add: image_size_def)
  have n: "(3::int) = int (length ?lines)" by simp
  have ne: "\<forall>l \<in> set ?lines. l \<noteq> []" by simp
  have lh: "(3::int) = 10 div 3" by simp
  have sv: "\<forall>i \<in> {1..3::int}. (\<lambda>img. True) (crop ?img (crop_box 2 10 3 3 i))" by simp
  have three: "(3::int) \<in> {1..3}" by simp
  have third: "crop ?img (crop_box 2 10 3 3 3) = Image 2 [[6, 6], [7, 7], [8, 8], [9, 9]]"
    by code_simp
  have two: "(2::int) \<le> 3" and hn: "(3::int) \<le> 10" and w: "(1::int) \<le> 2" by simp_all
  note c1 = C1_bands_partition[where s = ?st and base_name = "''page1''"
      and img_file = "''page1.png''" and img = ?img and W = 2 and H = 10 and N = 3
      and lines = ?lines and line_height = 3 and can_save = "\<lambda>img. True",
      OF fi op sz n two ne hn w lh sv]
  note all = c1[THEN conjunct1]
  have cnt: "total_split (process_record (\<lambda>img. True) (''page1'', ?lines) ?st) = 3"
    using c1[THEN conjunct2, THEN conjunct1] by simp
  note un = c1[THEN conjunct2, THEN conjunct2, THEN conjunct2, THEN conjunct2, THEN conjunct2,
               THEN conjunct2, THEN conjunct2]
  have nm: "new_img ''page1'' 3 = ''page1_line003.png''" by code_simp
  have f3: "map_of (files (process_record (\<lambda>img. True) (''page1'', ?lines) ?st)) ''page1_line003.png''
      = Some (ImageFile (Image 2 [[6, 6], [7, 7], [8, 8], [9, 9]]))"
    using all[rule_format, OF three] third nm by simp
  have boxes: "crop_box 2 10 3 3 1 = (0, 0, 2, 3)" "crop_box 2 10 3 3 2 = (0, 3, 2, 6)"
      "crop_box 2 10 3 3 3 = (0, 6, 2, 10)"
    by (simp_all add: crop_box_eq)
  show ?thesis using f3 boxes un cnt by simp
qed

text \<open>
  An image of one row for a record of two lines (\<open>N = 2\<close>, \<open>H = 1\<close>): the first rectangle is
  \<open>(0, 0, 3, 0)\<close>, its crop has no row, the save of line 121 raises, and the record is
  abandoned with no rectangle saved and the second never cropped.
\<close>

theorem C1_fewer_rows_than_lines_counterexample:
  "main (\<lambda>img. True)
     (Root [(''a.gt.txt'', TextFile ''x\<newline>y\<newline>''), (''a.png'', ImageFile (Image 3 [[7, 8, 9]]))] None)
   = (Completed,
      \<lparr>files = [(''a.gt.txt'', TextFile ''x\<newline>y\<newline>''), (''a.png'', ImageFile (Image 3 [[7, 8, 9]]))],
       backup = Some [],
       printed = [MsgTitle, MsgRule, MsgAnalyzing, InfoFoundMultiline ''a'' 2, MsgFound 1 1,
                  MsgSplitting, InfoProcessing ''a'', InfoImage 3 1 2, ErrFailed ''a'' SystemError,
                  MsgRule, MsgSummary, MsgRule, OkSuccessfullySplit 1, InfoBackupLocation,
                  OkTotalSingleLine 1, MsgNextSteps, InfoNextStep 1, InfoNextStep 2,
                  InfoNextStep 3, OkDone],
       total_split = 0\<rparr>)
   \<and> crop (Image 3 [[7, 8, 9]]) (crop_box 3 1 (1 div 2) 2 1) = Image 3 []"
  by code_simp

section \<open>Images with fewer rows than lines\<close>

lemma crop_degenerate: "crop img (0, 0, W, 0) = Image (nat W) []"
  by (simp add: crop_def)

text \<open>
  Claim C10, as the code has it. With fewer pixel rows than lines (\<open>1 \<le> H < N\<close>) the line
  height \<open>H div N\<close> is 0: the rectangles of the lines 1 to \<open>N - 1\<close> are \<open>(0, 0, W, 0)\<close>, with no
  row, the rectangle of line \<open>N\<close> is \<open>(0, 0, W, H)\<close>, the whole image, and the union of the
  vertical ranges is still \<open>[0, H)\<close>. No output pair is emitted: the crop of the first line
  has no row, the imaging library refuses to save it, and the exception ends the loop at
  its first turn. The record is reported as failed; \<open>total_split\<close> and the backup directory
  are as before, the originals stay where they were, and the only file that can differ is
  one that was already there under the name of the first output image, now without its
  content.
\<close>

theorem C10_fewer_rows_than_lines:
  fixes W H N :: int
  assumes fi: "find_image (files s) base_name = Some img_file"
    and op: "map_of (files s) img_file = Some (ImageFile img)"
    and sz: "image_size img = (W, H)"
    and n: "N = int (length lines)"
    and ne: "\<forall>l \<in> set lines. l \<noteq> []"
    and h1: "1 \<le> H"
    and hn: "H < N"
  shows "H div N = 0
       \<and> (\<forall>i \<in> {1..<N}. crop_box W H (H div N) N i = (0, 0, W, 0)
                        \<and> v_range (crop_box W H (H div N) N i) = {})
       \<and> crop_box W H (H div N) N N = (0, 0, W, H)
       \<and> v_range (crop_box W H (H div N) N N) = {0..<H}
       \<and> (\<Union>i \<in> {1..N}. v_range (crop_box W H (H div N) N i)) = {0..<H}
       \<and> crop img (crop_box W H (H div N) N 1) = Image (nat W) []
       \<and> process_record can_save (base_name, lines) s =
           emit (ErrFailed base_name SystemError)
             (clobber (new_img base_name 1)
                (emit (InfoImage W H N) (emit (InfoProcessing base_name) s)))
       \<and> total_split (process_record can_save (base_name, lines) s) = total_split s
       \<and> backup (process_record can_save (base_name, lines) s) = backup s
       \<and> (\<forall>name. name \<noteq> new_img base_name 1 \<longrightarrow>
             map_of (files (process_record can_save (base_name, lines) s)) name =
             map_of (files s) name)
       \<and> (\<forall>i cropped. map_of (files (process_record can_save (base_name, lines) s))
                          (new_img base_name i) = Some (ImageFile cropped) \<longrightarrow>
             map_of (files s) (new_img base_name i) = Some (ImageFile cropped))"
proof -
  have lh: "H div N = 0" using h1 hn by simp
  have n0: "0 < N" and h0: "0 \<le> H" and n2: "1 < N" using h1 hn by simp_all
  have c2: "\<forall>i \<in> {1..<N}. crop_box W H (H div N) N i = (0, 0, W, 0)
                        \<and> v_range (crop_box W H (H div N) N i) = {}"
    by (simp add: lh crop_box_eq v_range_def v_start_def v_end_def)
  have c3: "crop_box W H (H div N) N N = (0, 0, W, H)" by (simp add: lh crop_box_eq)
  have c4: "v_range (crop_box W H (H div N) N N) = {0..<H}"
    by (simp add: c3 v_range_def v_start_def v_end_def)
  have c5: "(\<Union>i \<in> {1..N}. v_range (crop_box W H (H div N) N i)) = {0..<H}"
    using h0 n0 by (rule box_union)
  have c6: "crop img (crop_box W H (H div N) N 1) = Image (nat W) []"
    using n2 by (simp add: lh crop_box_eq crop_degenerate)
  obtain l ls where l: "lines = l # ls" using n n0 by (cases lines) auto
  have lne: "l \<noteq> []" and nonempty: "lines \<noteq> []" using ne l by auto
  let ?s1 = "emit (InfoImage W H N) (emit (InfoProcessing base_name) s)"
  have lc: "line_crop img (H div N) N 1 = Image (nat W) []"
    using c6 by (simp add: line_crop_def sz)
  have "split_lines can_save base_name img (H div N) N (enumerate_from 1 lines) ?s1
        = (Some SystemError, clobber (new_img base_name 1) ?s1)"
    by (simp add: l lne split_lines_step lc encodable_def)
  then have sl: "split_lines can_save base_name img (snd (image_size img) div int (length lines))
               (int (length lines)) (enumerate_from 1 lines)
               (emit (InfoImage (fst (image_size img)) (snd (image_size img)) (int (length lines)))
                  (emit (InfoProcessing base_name) s))
             = (Some SystemError, clobber (new_img base_name 1) ?s1)"
    by (simp add: sz n)
  have c7: "process_record can_save (base_name, lines) s =
           emit (ErrFailed base_name SystemError) (clobber (new_img base_name 1) ?s1)"
    using fi op nonempty sl by (rule process_record_loop_fails)
  have c8: "total_split (process_record can_save (base_name, lines) s) = total_split s"
    and c9: "backup (process_record can_save (base_name, lines) s) = backup s"
    by (simp_all add: c7)
  have c10: "\<forall>name. name \<noteq> new_img base_name 1 \<longrightarrow>
             map_of (files (process_record can_save (base_name, lines) s)) name =
             map_of (files s) name"
    by (simp add: c7)
  have c11: "\<forall>i cropped. map_of (files (process_record can_save (base_name, lines) s))
                          (new_img base_name i) = Some (ImageFile cropped) \<longrightarrow>
             map_of (files s) (new_img base_name i) = Some (ImageFile cropped)"
  proof (intro allI impI)
    fix i cropped
    assume a: "map_of (files (process_record can_save (base_name, lines) s))
                          (new_img base_name i) = Some (ImageFile cropped)"
    have "new_img base_name i \<noteq> new_img base_name 1"
    proof
      assume "new_img base_name i = new_img base_name 1"
      then have "map_of (files (clobber (new_img base_name 1) ?s1)) (new_img base_name 1)
                 = Some (ImageFile cropped)"
        using a by (simp add: c7)
      then show False using clobber_not_image by blast
    qed
    then show "map_of (files s) (new_img base_name i) = Some (ImageFile cropped)"
      using a c10 by simp
  qed
  show ?thesis by (intro conjI lh c2 c3 c4 c5 c6 c7 c8 c9 c10 c11)
qed

text \<open>
  Three lines over an image of two rows, in a directory that already holds a file under the
  name of the first output image.
\<close>

theorem C10_fewer_rows_than_lines_witness:
  "process_record (\<lambda>img. True) (''p'', [''a'', ''b'', ''c''])
     \<lparr>files = [(''p.gt.txt'', TextFile ''a\<newline>b\<newline>c\<newline>''),
               (''p.tif'', ImageFile (Image 1 [[5], [6]])),
               (''p_line001.png'', ImageFile (Image 1 [[4]]))],
      backup = Some [], printed = [], total_split = 0\<rparr>
   = \<lparr>files = [(''p.gt.txt'', TextFile ''a\<newline>b\<newline>c\<newline>''),
               (''p.tif'', ImageFile (Image 1 [[5], [6]])),
               (''p_line001.png'', Unreadable)],
      backup = Some [],
      printed = [InfoProcessing ''p'', InfoImage 1 2 3, ErrFailed ''p'' SystemError],
      total_split = 0\<rparr>
   \<and> crop_box 1 2 (2 div 3) 3 1 = (0, 0, 1, 0)
   \<and> crop_box 1 2 (2 div 3) 3 2 = (0, 0, 1, 0)
   \<and> crop_box 1 2 (2 div 3) 3 3 = (0, 0, 1, 2)
   \<and> (\<Union>i \<in> {1..3}. v_range (crop_box 1 2 (2 div 3) 3 i)) = {0..<2}"
proof -
  let ?lines = "[''a'', ''b'', ''c'']"
  let ?st = "\<lparr>files = [(''p.gt.txt'', TextFile ''a\<newline>b\<newline>c\<newline>''),
                      (''p.tif'', ImageFile (Image 1 [[5], [6]])),
                      (''p_line001.png'', ImageFile (Image 1 [[4]]))],
              backup = Some [], printed = [], total_split = 0\<rparr>"
  have fi: "find_image (files ?st) ''p'' = Some ''p.tif''" by code_simp
  have op: "map_of (files ?st) ''p.tif'' = Some (ImageFile (Image 1 [[5], [6]]))" by simp
  have sz: "image_size (Image 1 [[5], [6]]) = (1, 2)" by (simp add: image_size_def)
  have n: "(3::int) = int (length ?lines)" by simp
  have ne: "\<forall>l \<in> set ?lines. l \<noteq> []" by simp
  have h1: "(1::int) \<le> 2" and hn: "(2::int) < 3" by simp_all
  note c10 = C10_fewer_rows_than_lines[where s = ?st and base_name = "''p''"
      and img_file = "''p.tif''" and img = "Image 1 [[5], [6]]" and W = 1 and H = 2 and N = 3
      and lines = ?lines and can_save = "\<lambda>img. True", OF fi op sz n ne h1 hn]
  note run = c10[THEN conjunct2, THEN conjunct2, THEN conjunct2, THEN conjunct2, THEN conjunct2,
                 THEN conjunct2, THEN conjunct1]
  note un = c10[THEN conjunct2, THEN conjunct2, THEN conjunct2, THEN conjunct2, THEN conjunct1]
  have val: "emit (ErrFailed ''p'' SystemError)
             (clobber (new_img ''p'' 1) (emit (InfoImage 1 2 3) (emit (InfoProcessing ''p'') ?st)))
      = \<lparr>files = [(''p.gt.txt'', TextFile ''a\<newline>b\<newline>c\<newline>''),
               (''p.tif'', ImageFile (Image 1 [[5], [6]])),
               (''p_line001.png'', Unreadable)],
         backup = Some [],
         printed = [InfoProcessing ''p'', InfoImage 1 2 3, ErrFailed ''p'' SystemError],
         total_split = 0\<rparr>"
    by code_simp
  have boxes: "crop_box 1 2 (2 div 3) 3 1 = (0, 0, 1, 0)" "crop_box 1 2 (2 div 3) 3 2 = (0, 0, 1, 0)"
      "crop_box 1 2 (2 div 3) 3 3 = (0, 0, 1, 2)"
    by (simp_all add: crop_box_eq)
  show ?thesis using run val boxes un by simp
qed

text \<open>
  The same record in a run: the two empty rectangles are not emitted as output pairs. The
  directory is as it was, no file \<open>p_line\<close>\<open>NNN\<close> exists, and the record is reported as
  failed.
\<close>

theorem C10_no_pair_emitted_counterexample:
  "main (\<lambda>img. True)
     (Root [(''p.gt.txt'', TextFile ''a\<newline>b\<newline>c\<newline>''), (''p.tif'', ImageFile (Image 1 [[5], [6]]))] None)
   = (Completed,
      \<lparr>files = [(''p.gt.txt'', TextFile ''a\<newline>b\<newline>c\<newline>''), (''p.tif'', ImageFile (Image 1 [[5], [6]]))],
       backup = Some [],
       printed = [MsgTitle, MsgRule, MsgAnalyzing, InfoFoundMultiline ''p'' 3, MsgFound 1 1,
                  MsgSplitting, InfoProcessing ''p'', InfoImage 1 2 3, ErrFailed ''p'' SystemError,
                  MsgRule, MsgSummary, MsgRule, OkSuccessfullySplit 1, InfoBackupLocation,
                  OkTotalSingleLine 1, MsgNextSteps, InfoNextStep 1, InfoNextStep 2,
                  InfoNextStep 3, OkDone],
       total_split = 0\<rparr>)
   \<and> crop_box 1 2 (2 div 3) 3 1 = (0, 0, 1, 0)
   \<and> crop_box 1 2 (2 div 3) 3 2 = (0, 0, 1, 0)"
  by code_simp

section \<open>The base name of an annotation file\<close>

text \<open>
  Claim C9. The base name of an annotation file \<open>p.gt.txt\<close> is its stem \<open>p.gt\<close> with every
  occurrence of \<open>.gt\<close> removed, which is \<open>p\<close> with every occurrence removed. So the base name
  is \<open>p\<close> exactly when \<open>p\<close> contains no \<open>.gt\<close>. For \<open>a.gtx.gt.txt\<close> the base name is \<open>ax\<close>,
  not \<open>a.gtx\<close>: with the image stored as \<open>a.gtx.png\<close> the run reports that no image was
  found for \<open>ax\<close> and writes nothing; with an image \<open>ax.png\<close> it splits that image, moves it
  away, and then fails to move \<open>ax.gt.txt\<close>, which does not exist.
\<close>

theorem C9_base_name_removes_every_gt:
  "base_name_of (p @ ''.gt.txt'') = str_replace ''.gt'' [] (p @ ''.gt'')
   \<and> base_name_of (p @ ''.gt.txt'') = str_replace ''.gt'' [] p
   \<and> ((base_name_of (p @ ''.gt.txt'') = p) = (\<not> (\<exists>u v. p = u @ ''.gt'' @ v)))
   \<and> base_name_of ''a.gtx.gt.txt'' = ''ax''
   \<and> main can_save
         (Root [(''a.gtx.gt.txt'', TextFile ''x\<newline>y''),
                (''a.gtx.png'', ImageFile (Image 1 [[5], [6]]))] None)
       = (Completed,
          \<lparr>files = [(''a.gtx.gt.txt'', TextFile ''x\<newline>y''),
                    (''a.gtx.png'', ImageFile (Image 1 [[5], [6]]))],
           backup = Some [],
           printed = [MsgTitle, MsgRule, MsgAnalyzing, InfoFoundMultiline ''ax'' 2, MsgFound 1 1,
                      MsgSplitting, ErrImageNotFound ''ax'', MsgRule, MsgSummary, MsgRule,
                      OkSuccessfullySplit 1, InfoBackupLocation, OkTotalSingleLine 1,
                      MsgNextSteps, InfoNextStep 1, InfoNextStep 2, InfoNextStep 3, OkDone],
           total_split = 0\<rparr>)
   \<and> main (\<lambda>img. True)
         (Root [(''a.gtx.gt.txt'', TextFile ''x\<newline>y''),
                (''ax.png'', ImageFile (Image 1 [[5], [6]]))] None)
       = (Completed,
          \<lparr>files = [(''a.gtx.gt.txt'', TextFile ''x\<newline>y''),
                    (''ax_line001.png'', ImageFile (Image 1 [[5]])),
                    (''ax_line001.gt.txt'', TextFile ''x\<newline>''),
                    (''ax_line002.png'', ImageFile (Image 1 [[6]])),
                    (''ax_line002.gt.txt'', TextFile ''y\<newline>'')],
           backup = Some [(''ax.png'', ImageFile (Image 1 [[5], [6]]))],
           printed = [MsgTitle, MsgRule, MsgAnalyzing, InfoFoundMultiline ''ax'' 2, MsgFound 1 1,
                      MsgSplitting, InfoProcessing ''ax'', InfoImage 1 2 2,
                      InfoCreated ''ax_line001'' 1, InfoCreated ''ax_line002'' 1,
                      ErrFailed ''ax'' FileNotFoundError, MsgRule, MsgSummary, MsgRule,
                      OkSuccessfullySplit 1, InfoBackupLocation, OkTotalSingleLine 3,
                      MsgNextSteps, InfoNextStep 1, InfoNextStep 2, InfoNextStep 3, OkDone],
           total_split = 2\<rparr>)"
proof -
  have a: "base_name_of (p @ ''.gt.txt'') = str_replace ''.gt'' [] (p @ ''.gt'')"
    by (simp add: base_name_of_def stem_gt_txt)
  have b: "base_name_of ''a.gtx.gt.txt'' = ''ax''"
    by code_simp
  have c: "main can_save
         (Root [(''a.gtx.gt.txt'', TextFile ''x\<newline>y''),
                (''a.gtx.png'', ImageFile (Image 1 [[5], [6]]))] None)
       = (Completed,
          \<lparr>files = [(''a.gtx.gt.txt'', TextFile ''x\<newline>y''),
                    (''a.gtx.png'', ImageFile (Image 1 [[5], [6]]))],
           backup = Some [],
           printed = [MsgTitle, MsgRule, MsgAnalyzing, InfoFoundMultiline ''ax'' 2, MsgFound 1 1,
                      MsgSplitting, ErrImageNotFound ''ax'', MsgRule, MsgSummary, MsgRule,
                      OkSuccessfullySplit 1, InfoBackupLocation, OkTotalSingleLine 1,
                      MsgNextSteps, InfoNextStep 1, InfoNextStep 2, InfoNextStep 3, OkDone],
           total_split = 0\<rparr>)"
    by code_simp
  have d: "main (\<lambda>img. True)
         (Root [(''a.gtx.gt.txt'', TextFile ''x\<newline>y''),
                (''ax.png'', ImageFile (Image 1 [[5], [6]]))] None)
       = (Completed,
          \<lparr>files = [(''a.gtx.gt.txt'', TextFile ''x\<newline>y''),
                    (''ax_line001.png'', ImageFile (Image 1 [[5]])),
                    (''ax_line001.gt.txt'', TextFile ''x\<newline>''),
                    (''ax_line002.png'', ImageFile (Image 1 [[6]])),
                    (''ax_line002.gt.txt'', TextFile ''y\<newline>'')],
           backup = Some [(''ax.png'', ImageFile (Image 1 [[5], [6]]))],
           printed = [MsgTitle, MsgRule, MsgAnalyzing, InfoFoundMultiline ''ax'' 2, MsgFound 1 1,
                      MsgSplitting, InfoProcessing ''ax'', InfoImage 1 2 2,
                      InfoCreated ''ax_line001'' 1, InfoCreated ''ax_line002'' 1,
                      ErrFailed ''ax'' FileNotFoundError, MsgRule, MsgSummary, MsgRule,
                      OkSuccessfullySplit 1, InfoBackupLocation, OkTotalSingleLine 3,
                      MsgNextSteps, InfoNextStep 1, InfoNextStep 2, InfoNextStep 3, OkDone],
           total_split = 2\<rparr>)"
    by code_simp
  show ?thesis
    using a b c d base_name_of_plain[of p] by (simp only: remove_gt_suffix simp_thms)
qed

end

